theory Spec2Isabelle
  imports Main
begin

section \<open>The reverse-tunnel client \<open>tunnel.Create\<close>\<close>

text \<open>
  The development embeds the one function of \<^verbatim>\<open>tunnel/tunnel.go\<close>, \<^verbatim>\<open>Create\<close>.
  Everything \<^verbatim>\<open>Create\<close> asks of the outside world (the environment variable, the
  URL parser, the network dials, the HTTP response, the SSH handshake, the remote
  listener, the reads and the copies) is an input of the model: the calls made before
  the first \<^verbatim>\<open>go\<close> statement take their results from an \<open>environment\<close> record, the
  calls made once goroutines run take them from the \<open>action\<close> that schedules the
  goroutine. What \<^verbatim>\<open>Create\<close> does in return is recorded as a trace of events, each
  labelled with the goroutine that performed it.

  A send on \<^verbatim>\<open>c.Channel\<close> is recorded as the event \<open>Ev_send\<close>; whether a receiver
  is ready is outside the model. \<^verbatim>\<open>log.Fatalf\<close> logs and calls \<^verbatim>\<open>os.Exit(1)\<close>: the
  process ends, no deferred call runs and no goroutine takes another step.
\<close>

subsection \<open>Data\<close>

datatype go_error = EOF | Err string

type_synonym conn = nat

record Configuration =
  Protocol :: string
  Subdomain :: string
  Domain_name :: string
  Port :: int
  Host :: string
  User :: string
  RemoteHost :: string
  RemotePort :: int
  TargetHost :: string
  TargetPort :: int
  InBoundConnectionHook :: "string option"
  Channel :: nat
  HideBanner :: bool

text \<open>
  \<open>InBoundConnectionHook\<close> is \<open>None\<close> for a nil function value and \<open>Some h\<close> for
  the caller's function, known by a name only. \<open>Channel\<close> is the identity of the
  caller's channel.
\<close>

definition EventReconnect :: int where
  "EventReconnect = 1"

definition hostBytes :: string where
  "hostBytes = ''ssh-rsa AAAAB3NzaC1yc2EAAAADAQABAAACAQDoSLknvlFrFzroOlh1cqvcIFelHO+Wvj1UZ/p3J9bgsJGiKfh3DmBqEw1DOEwpHJz4zuV375TyjGuHuGZ4I4xztnwauhFplfEvriVHQkIDs6UnGwJVr15XUQX04r0i6mLbJs5KqIZTZuZ9ZGOj7ZWnaA7C07nPHGrERKV2Fm67rPvT6/qFikdWUbCt7KshbzdwwfxUohmv+NI7vw2X6vPU8pDaNEY7vS3YgwD/WlvQx+WDF2+iwLVW8OWWjFuQso6Eg1BSLygfPNhAHoiOWjDkijc8U9LYkUn7qsDCnvJxCoTTNmdECukeHfzrUjTSw72KZoM5KCRV78Wrctai1Qn6yRQz9BOSguxewLfzHtnT43/MLdwFXirJ/Ajquve2NAtYmyGCq5HcvpDAyi7lQ0nFBnrWv5zU3YxrISIpjovVyJjfPx8SCRlYZwVeUq6N2yAxCzJxbElZPtaTSoXBIFtoas2NXnCWPgenBa/2bbLQqfgbN8VQ9RaUISKNuYDIn4+eO72+RxF9THzZeV17pnhTVK88XU4asHot1gXwAt4vEhSjdUBC9KUIkfukI6F4JFxtvuO96octRahdV1Qg0vF+D0+SPy2HxqjgZWgPE2Xh/NmuIXwbE0wkymR2wrgj8Hd4C92keo2NBRh9dD7D2negnVYaYsC+3k/si5HNuCHnHQ== tunnel@labstack.com''"

text \<open>
  An address is either a string handed to the dialer as it is, or the result of
  \<^verbatim>\<open>fmt.Sprintf("%s:%d", host, port)\<close>, kept as its two arguments.
\<close>

datatype address = Address string | HostPort string int

text \<open>
  A parsed URL, by what its accessors return: \<^verbatim>\<open>Hostname()\<close> is the host without
  any port, \<^verbatim>\<open>Port()\<close> the port (empty when the URL has none), \<^verbatim>\<open>User\<close> the
  optional user information with its optional password.
\<close>

record userinfo =
  ui_username :: string
  ui_password :: "string option"

record url =
  url_hostname :: string
  url_port :: string
  url_user :: "userinfo option"

definition Hostname :: "url \<Rightarrow> string" where
  "Hostname u = url_hostname u"

text \<open>
  What the relay does during the SSH handshake: whether the transport reaches the key
  exchange, the host key it presents, the banner it sends (if any) and whether it
  accepts the password.
\<close>

record handshake =
  hs_transport :: bool
  hs_host_key :: string
  hs_banner :: "string option"
  hs_auth :: bool

record environment =
  env_parse_key :: "string \<Rightarrow> string option"
  env_http_proxy :: string
  env_url_parse :: "string \<Rightarrow> url option"
  env_dial :: "address \<Rightarrow> bool"
  env_response :: "nat option"
  env_handshake :: handshake
  env_new_session :: bool
  env_stdout_pipe :: bool

text \<open>
  \<open>env_parse_key\<close> is \<^verbatim>\<open>ssh.ParseAuthorizedKey\<close> (\<open>None\<close> for an error),
  \<open>env_http_proxy\<close> the value of \<^verbatim>\<open>os.Getenv("http_proxy")\<close>, \<open>env_url_parse\<close> is
  \<^verbatim>\<open>url.Parse\<close>, \<open>env_dial a\<close> tells whether a TCP dial to \<open>a\<close> succeeds,
  \<open>env_response\<close> is the result of \<^verbatim>\<open>http.ReadResponse\<close> (\<open>None\<close> for an error,
  \<open>Some status\<close> for a response that parses, whatever its status code),
  \<open>env_new_session\<close> and \<open>env_stdout_pipe\<close> tell whether \<^verbatim>\<open>client.NewSession\<close> and
  \<^verbatim>\<open>sess.StdoutPipe\<close> succeed.
\<close>

datatype resource = Res_body | Res_client | Res_session | Res_listener
  | Res_in conn | Res_out conn

datatype event =
    Ev_dial address bool
  | Ev_connect string "(string \<times> string) option"
  | Ev_read_response bool
  | Ev_handshake string
  | Ev_print string
  | Ev_log string
  | Ev_fatal string
  | Ev_panic
  | Ev_send nat int
  | Ev_listen address bool
  | Ev_go_hook string conn
  | Ev_go_relay conn
  | Ev_close resource

datatype thread = T_main | T_reader | T_relay nat

datatype outcome = Fatal | Returned | Established bool

subsection \<open>Before the first goroutine: connecting\<close>

text \<open>
  \<^verbatim>\<open>ssh.FixedHostKey(hostKey)\<close> is the host key callback of the client
  configuration: it accepts exactly the pinned key. The banner callback prints the
  banner unless \<open>HideBanner\<close> is set, and never fails.
\<close>

definition FixedHostKey :: "string \<Rightarrow> string \<Rightarrow> go_error option" where
  "FixedHostKey key presented =
     (if presented = key then None else Some (Err ''ssh: host key mismatch''))"

definition BannerCallback :: "Configuration \<Rightarrow> string \<Rightarrow> event list \<times> go_error option" where
  "BannerCallback c message =
     ((if \<not> HideBanner c then [Ev_print message] else []), None)"

text \<open>
  The handshake of the SSH library with the client configuration of \<^verbatim>\<open>Create\<close>: it
  fails when the transport fails, when the host key callback rejects the presented key,
  when the banner callback fails, or when the relay refuses the password. The second
  component tells whether a client connection results.
\<close>

definition NewClientConn ::
  "Configuration \<Rightarrow> string \<Rightarrow> handshake \<Rightarrow> event list \<times> bool" where
  "NewClientConn c hostKey hs =
     (if \<not> hs_transport hs then ([Ev_handshake (Host c)], False)
      else if FixedHostKey hostKey (hs_host_key hs) \<noteq> None then ([Ev_handshake (Host c)], False)
      else
        (case (case hs_banner hs of None \<Rightarrow> ([], None) | Some m \<Rightarrow> BannerCallback c m) of
           (evs, berr) \<Rightarrow>
             if berr \<noteq> None then (Ev_handshake (Host c) # evs, False)
             else (Ev_handshake (Host c) # evs, hs_auth hs)))"

text \<open>\<^verbatim>\<open>ssh.Dial\<close> dials and, when the dial succeeds, runs the handshake.\<close>

definition ssh_Dial ::
  "Configuration \<Rightarrow> string \<Rightarrow> environment \<Rightarrow> event list \<times> bool" where
  "ssh_Dial c hostKey env =
     (if \<not> env_dial env (Address (Host c)) then ([Ev_dial (Address (Host c)) False], False)
      else
        (case NewClientConn c hostKey (env_handshake env) of
           (evs, ok) \<Rightarrow> (Ev_dial (Address (Host c)) True # evs, ok)))"

definition basic_auth :: "url \<Rightarrow> (string \<times> string) option" where
  "basic_auth u =
     (case url_user u of
        None \<Rightarrow> None
      | Some ui \<Rightarrow>
          (case ui_password ui of None \<Rightarrow> None | Some p \<Rightarrow> Some (ui_username ui, p)))"

text \<open>
  The branch \<^verbatim>\<open>proxy != ""\<close>. Each \<^verbatim>\<open>err\<close> of this branch is declared inside it
  with \<^verbatim>\<open>:=\<close>, so the test \<^verbatim>\<open>err != nil\<close> that follows the branch reads the outer
  \<^verbatim>\<open>err\<close>, which is nil there: the branch either ends the process or leaves with a
  client.
\<close>

definition connect_proxy ::
  "Configuration \<Rightarrow> string \<Rightarrow> environment \<Rightarrow> event list \<times> outcome" where
  "connect_proxy c hostKey env =
     (case env_url_parse env (env_http_proxy env) of
        None \<Rightarrow> ([Ev_fatal ''cannot open new session: %v''], Fatal)
      | Some proxyURL \<Rightarrow>
          if \<not> env_dial env (Address (Hostname proxyURL)) then
            ([Ev_dial (Address (Hostname proxyURL)) False,
              Ev_fatal ''cannot open new session: %v''], Fatal)
          else
            (case env_response env of
               None \<Rightarrow>
                 ([Ev_dial (Address (Hostname proxyURL)) True,
                   Ev_connect (Host c) (basic_auth proxyURL),
                   Ev_read_response False,
                   Ev_fatal ''cannot open new session: %v''], Fatal)
             | Some status \<Rightarrow>
                 (case NewClientConn c hostKey (env_handshake env) of
                    (evs, ok) \<Rightarrow>
                      if \<not> ok then
                        ([Ev_dial (Address (Hostname proxyURL)) True,
                          Ev_connect (Host c) (basic_auth proxyURL),
                          Ev_read_response True] @ evs @
                         [Ev_fatal ''cannot open new session: %v''], Fatal)
                      else
                        ([Ev_dial (Address (Hostname proxyURL)) True,
                          Ev_connect (Host c) (basic_auth proxyURL),
                          Ev_read_response True] @ evs, Established True))))"

definition connect_direct ::
  "Configuration \<Rightarrow> string \<Rightarrow> environment \<Rightarrow> event list \<times> outcome" where
  "connect_direct c hostKey env =
     (case ssh_Dial c hostKey env of
        (evs, ok) \<Rightarrow>
          if \<not> ok then
            (evs @ [Ev_log ''failed to connect: %v'', Ev_send (Channel c) EventReconnect],
             Returned)
          else (evs, Established False))"

definition connect :: "Configuration \<Rightarrow> environment \<Rightarrow> event list \<times> outcome" where
  "connect c env =
     (case env_parse_key env hostBytes of
        None \<Rightarrow> ([Ev_fatal ''failed to parse host key: %v''], Fatal)
      | Some hostKey \<Rightarrow>
          if env_http_proxy env \<noteq> [] then connect_proxy c hostKey env
          else connect_direct c hostKey env)"

subsection \<open>The goroutines\<close>

text \<open>
  The main goroutine is about to call \<^verbatim>\<open>client.Listen\<close>, or is in the accept loop,
  or has returned from \<^verbatim>\<open>Create\<close>; \<open>M_halted\<close> stands for a process that ended
  before \<^verbatim>\<open>Create\<close> reached the listener.
\<close>

datatype main_pc = M_halted | M_listen | M_accept | M_returned

text \<open>
  The reader goroutine does not exist, or loops on \<^verbatim>\<open>br.ReadLine\<close> (the flag tells
  whether \<^verbatim>\<open>StdoutPipe\<close> gave a reader: after an error \<^verbatim>\<open>r\<close> is nil), or has
  returned.
\<close>

datatype reader_pc = R_absent | R_reading bool | R_stopped

text \<open>
  One task per accepted connection: the caller's hook, or the relay goroutine, which
  dials the target, then waits on \<^verbatim>\<open>errCh\<close> while the two copiers run, then is
  finished. \<open>Copying ch ti tt\<close> holds the buffered channel and tells whether
  \<^verbatim>\<open>cp(in, out)\<close> (towards the inbound connection) and \<^verbatim>\<open>cp(out, in)\<close> (towards the
  target) still run.
\<close>

datatype direction = To_inbound | To_target

datatype relay_pc = Dialing | Copying "go_error option list" bool bool | Finished

datatype task = Hook conn | Relay conn relay_pc

record state =
  trace :: "(thread \<times> event) list"
  exited :: bool
  main :: main_pc
  defers :: "resource list"
  reader :: reader_pc
  tasks :: "task list"

datatype action =
    A_listen bool
  | A_accept "conn option"
  | A_read "go_error + string"
  | A_dial nat bool
  | A_copy nat direction "go_error option"
  | A_recv nat

text \<open>
  \<open>A_listen ok\<close>: the main goroutine calls \<^verbatim>\<open>client.Listen\<close>, which succeeds or not.
  \<open>A_accept r\<close>: \<^verbatim>\<open>ln.Accept\<close> returns a connection or an error.
  \<open>A_read r\<close>: \<^verbatim>\<open>br.ReadLine\<close> returns a line or an error.
  \<open>A_dial i ok\<close>: the relay of task \<open>i\<close> dials the target.
  \<open>A_copy i d e\<close>: the copier of task \<open>i\<close> in direction \<open>d\<close> ends, \<^verbatim>\<open>io.Copy\<close>
  returning \<open>e\<close>. \<open>A_recv i\<close>: the relay of task \<open>i\<close> receives from \<^verbatim>\<open>errCh\<close>.
  An action whose goroutine is not at that point leaves the state as it is.
\<close>

definition emit :: "thread \<Rightarrow> event list \<Rightarrow> state \<Rightarrow> state" where
  "emit t evs s = s\<lparr>trace := trace s @ map (Pair t) evs\<rparr>"

definition fatal :: "thread \<Rightarrow> string \<Rightarrow> state \<Rightarrow> state" where
  "fatal t msg s = (emit t [Ev_fatal msg] s)\<lparr>exited := True\<rparr>"

definition step_listen :: "Configuration \<Rightarrow> bool \<Rightarrow> state \<Rightarrow> state" where
  "step_listen c ok s =
     (if main s \<noteq> M_listen then s
      else if \<not> ok then
        fatal T_main ''failed to listen on remote host: %v''
          (emit T_main [Ev_listen (HostPort (RemoteHost c) (RemotePort c)) False] s)
      else
        (emit T_main [Ev_listen (HostPort (RemoteHost c) (RemotePort c)) True] s)
          \<lparr>main := M_accept, defers := Res_listener # defers s\<rparr>)"

definition step_accept :: "Configuration \<Rightarrow> conn option \<Rightarrow> state \<Rightarrow> state" where
  "step_accept c r s =
     (if main s \<noteq> M_accept then s
      else
        (case r of
           None \<Rightarrow>
             (emit T_main (Ev_log ''failed to accept connection: %v'' # map Ev_close (defers s)) s)
               \<lparr>main := M_returned, defers := []\<rparr>
         | Some inb \<Rightarrow>
             (case InBoundConnectionHook c of
                Some h \<Rightarrow> (emit T_main [Ev_go_hook h inb] s)\<lparr>tasks := tasks s @ [Hook inb]\<rparr>
              | None \<Rightarrow>
                  (emit T_main [Ev_go_relay inb] s)\<lparr>tasks := tasks s @ [Relay inb Dialing]\<rparr>)))"

definition step_read :: "Configuration \<Rightarrow> go_error + string \<Rightarrow> state \<Rightarrow> state" where
  "step_read c r s =
     (case reader s of
        R_reading pipe \<Rightarrow>
          if \<not> pipe then (emit T_reader [Ev_panic] s)\<lparr>exited := True\<rparr>
          else
            (case r of
               Inl e \<Rightarrow>
                 if e = EOF then
                   (emit T_reader [Ev_send (Channel c) EventReconnect] s)\<lparr>reader := R_stopped\<rparr>
                 else fatal T_reader ''failed to read: %v'' s
             | Inr line \<Rightarrow> emit T_reader [Ev_print (line @ [CHR 0x0A])] s)
      | _ \<Rightarrow> s)"

definition step_dial :: "Configuration \<Rightarrow> nat \<Rightarrow> bool \<Rightarrow> state \<Rightarrow> state" where
  "step_dial c i ok s =
     (if \<not> i < length (tasks s) then s
      else
        (case tasks s ! i of
           Relay inb Dialing \<Rightarrow>
             if \<not> ok then
               (emit (T_relay i)
                  [Ev_dial (HostPort (TargetHost c) (TargetPort c)) False,
                   Ev_log ''failed to connect to target: %v'',
                   Ev_close (Res_in inb)] s)
                 \<lparr>tasks := (tasks s)[i := Relay inb Finished]\<rparr>
             else
               (emit (T_relay i) [Ev_dial (HostPort (TargetHost c) (TargetPort c)) True] s)
                 \<lparr>tasks := (tasks s)[i := Relay inb (Copying [] True True)]\<rparr>
         | _ \<Rightarrow> s))"

definition step_copy :: "nat \<Rightarrow> direction \<Rightarrow> go_error option \<Rightarrow> state \<Rightarrow> state" where
  "step_copy i d e s =
     (if \<not> i < length (tasks s) then s
      else
        (case tasks s ! i of
           Relay inb (Copying ch ti tt) \<Rightarrow>
             (case d of
                To_inbound \<Rightarrow>
                  if ti then s\<lparr>tasks := (tasks s)[i := Relay inb (Copying (ch @ [e]) False tt)]\<rparr>
                  else s
              | To_target \<Rightarrow>
                  if tt then s\<lparr>tasks := (tasks s)[i := Relay inb (Copying (ch @ [e]) ti False)]\<rparr>
                  else s)
         | _ \<Rightarrow> s))"

definition step_recv :: "nat \<Rightarrow> state \<Rightarrow> state" where
  "step_recv i s =
     (if \<not> i < length (tasks s) then s
      else
        (case tasks s ! i of
           Relay inb (Copying (err # ch) ti tt) \<Rightarrow>
             (emit (T_relay i)
                ((if err \<noteq> None \<and> err \<noteq> Some EOF then [Ev_log ''failed to copy: %v''] else [])
                 @ [Ev_close (Res_out inb), Ev_close (Res_in inb)]) s)
               \<lparr>tasks := (tasks s)[i := Relay inb Finished]\<rparr>
         | _ \<Rightarrow> s))"

definition step :: "Configuration \<Rightarrow> action \<Rightarrow> state \<Rightarrow> state" where
  "step c a s =
     (if exited s then s
      else
        (case a of
           A_listen ok \<Rightarrow> step_listen c ok s
         | A_accept r \<Rightarrow> step_accept c r s
         | A_read r \<Rightarrow> step_read c r s
         | A_dial i ok \<Rightarrow> step_dial c i ok s
         | A_copy i d e \<Rightarrow> step_copy i d e s
         | A_recv i \<Rightarrow> step_recv i s))"

fun exec :: "Configuration \<Rightarrow> action list \<Rightarrow> state \<Rightarrow> state" where
  "exec c [] s = s"
| "exec c (a # as) s = exec c as (step c a s)"

text \<open>
  The state in which \<^verbatim>\<open>Create\<close> starts its goroutines: after connecting it defers
  \<^verbatim>\<open>client.Close\<close> (in proxy mode \<^verbatim>\<open>resp.Body.Close\<close> is deferred already), opens
  the session, defers \<^verbatim>\<open>sess.Close\<close>, asks for the stdout pipe (an error is logged
  and nothing else) and starts the reader.
\<close>

definition start :: "Configuration \<Rightarrow> environment \<Rightarrow> state" where
  "start c env =
     (case connect c env of
        (evs, Fatal) \<Rightarrow>
          \<lparr>trace = map (Pair T_main) evs, exited = True, main = M_halted, defers = [],
           reader = R_absent, tasks = []\<rparr>
      | (evs, Returned) \<Rightarrow>
          \<lparr>trace = map (Pair T_main) evs, exited = False, main = M_returned, defers = [],
           reader = R_absent, tasks = []\<rparr>
      | (evs, Established proxy) \<Rightarrow>
          if \<not> env_new_session env then
            \<lparr>trace = map (Pair T_main) (evs @ [Ev_fatal ''failed to create session: %v'']),
             exited = True, main = M_halted,
             defers = Res_client # (if proxy then [Res_body] else []),
             reader = R_absent, tasks = []\<rparr>
          else
            \<lparr>trace = map (Pair T_main)
               (evs @ (if \<not> env_stdout_pipe env then [Ev_log ''%v''] else [])),
             exited = False, main = M_listen,
             defers = Res_session # Res_client # (if proxy then [Res_body] else []),
             reader = R_reading (env_stdout_pipe env), tasks = []\<rparr>)"

definition Create :: "Configuration \<Rightarrow> environment \<Rightarrow> action list \<Rightarrow> state" where
  "Create c env sched = exec c sched (start c env)"

subsection \<open>Reading traces\<close>

fun is_send :: "event \<Rightarrow> bool" where
  "is_send (Ev_send ch v) = True"
| "is_send _ = False"

fun is_listen :: "event \<Rightarrow> bool" where
  "is_listen (Ev_listen a ok) = True"
| "is_listen _ = False"

fun is_handshake :: "event \<Rightarrow> bool" where
  "is_handshake (Ev_handshake h) = True"
| "is_handshake _ = False"

definition sends :: "(thread \<times> event) list \<Rightarrow> (thread \<times> event) list" where
  "sends tr = filter (\<lambda>te. is_send (snd te)) tr"

definition signals :: "(thread \<times> event) list \<Rightarrow> nat" where
  "signals tr = length (sends tr)"

definition listens :: "(thread \<times> event) list \<Rightarrow> nat" where
  "listens tr = length (filter (\<lambda>te. is_listen (snd te)) tr)"

definition handshakes :: "(thread \<times> event) list \<Rightarrow> nat" where
  "handshakes tr = length (filter (\<lambda>te. is_handshake (snd te)) tr)"

definition events_of :: "thread \<Rightarrow> (thread \<times> event) list \<Rightarrow> event list" where
  "events_of t tr = map snd (filter (\<lambda>te. fst te = t) tr)"

subsection \<open>Sample inputs\<close>

text \<open>
  The scenario of the specification: relay \<open>relay.example:22\<close>, remote bind
  \<open>0.0.0.0:9000\<close>, target \<open>127.0.0.1:8080\<close>; a direct environment in which every call
  succeeds, and variants of it.
\<close>

definition cfg0 :: Configuration where
  "cfg0 = \<lparr>Protocol = ''tcp'', Subdomain = [], Domain_name = [], Port = 0,
     Host = ''relay.example:22'', User = ''u'',
     RemoteHost = ''0.0.0.0'', RemotePort = 9000,
     TargetHost = ''127.0.0.1'', TargetPort = 8080,
     InBoundConnectionHook = None, Channel = 0, HideBanner = False\<rparr>"

definition cfg_hook :: Configuration where
  "cfg_hook = cfg0\<lparr>InBoundConnectionHook := Some ''hook''\<rparr>"

definition env0 :: environment where
  "env0 = \<lparr>env_parse_key = (\<lambda>b. Some ''pinned''), env_http_proxy = [],
     env_url_parse = (\<lambda>u. None), env_dial = (\<lambda>a. True), env_response = None,
     env_handshake =
       \<lparr>hs_transport = True, hs_host_key = ''pinned'', hs_banner = None, hs_auth = True\<rparr>,
     env_new_session = True, env_stdout_pipe = True\<rparr>"

text \<open>
  Two proxy environments. A TCP dial needs an address with a port, so only the relay
  \<open>relay.example:22\<close> and the proxy \<open>proxy.example:3128\<close> can be dialed. In
  \<open>env_proxy\<close> the proxy URL is \<open>http://proxy.example:3128\<close>: its hostname has no
  port and the dial fails. In \<open>env_proxy_reach\<close> the URL is
  \<open>http://proxy.example:3128:80\<close>, of which \<^verbatim>\<open>Hostname()\<close> strips the last port
  only, so the address dialed is \<open>proxy.example:3128\<close> and the proxy is reached.
\<close>

definition proxy_url0 :: url where
  "proxy_url0 = \<lparr>url_hostname = ''proxy.example'', url_port = ''3128'', url_user = None\<rparr>"

definition env_proxy :: environment where
  "env_proxy = env0\<lparr>env_http_proxy := ''http://proxy.example:3128'',
     env_url_parse := (\<lambda>u. Some proxy_url0),
     env_dial := (\<lambda>a. a = Address ''relay.example:22'' \<or> a = Address ''proxy.example:3128''),
     env_response := Some 200\<rparr>"

definition proxy_url1 :: url where
  "proxy_url1 =
     \<lparr>url_hostname = ''proxy.example:3128'', url_port = ''80'', url_user = None\<rparr>"

definition env_proxy_reach :: environment where
  "env_proxy_reach = env_proxy\<lparr>env_http_proxy := ''http://proxy.example:3128:80'',
     env_url_parse := (\<lambda>u. Some proxy_url1)\<rparr>"

definition other_key :: handshake where
  "other_key =
     \<lparr>hs_transport = True, hs_host_key = ''other'', hs_banner = None, hs_auth = True\<rparr>"

subsection \<open>Invariants and views\<close>

text \<open>
  The invariant behind the reconnect signal: while the reader loops no send has been made,
  and at any time at most one has; a send is the main goroutine's or the reader's.
\<close>

definition sig_inv :: "Configuration \<Rightarrow> state \<Rightarrow> bool" where
  "sig_inv c s =
     (signals (trace s) \<le> (case reader s of R_reading p \<Rightarrow> 0 | _ \<Rightarrow> 1)
      \<and> set (sends (trace s))
          \<subseteq> {(T_main, Ev_send (Channel c) EventReconnect),
             (T_reader, Ev_send (Channel c) EventReconnect)})"

text \<open>
  What the reader prints and sends, given the results of its successive reads: the
  lines are printed up to the first error; end of stream is answered by one send, any
  other error by \<^verbatim>\<open>log.Fatalf\<close>; nothing follows.
\<close>

fun reader_output :: "Configuration \<Rightarrow> (go_error + string) list \<Rightarrow> event list" where
  "reader_output c [] = []"
| "reader_output c (Inr line # rs) = Ev_print (line @ [CHR 0x0A]) # reader_output c rs"
| "reader_output c (Inl EOF # rs) = [Ev_send (Channel c) EventReconnect]"
| "reader_output c (Inl (Err m) # rs) = [Ev_fatal ''failed to read: %v'']"

fun reads_of :: "action list \<Rightarrow> (go_error + string) list" where
  "reads_of [] = []"
| "reads_of (A_read r # as) = r # reads_of as"
| "reads_of (a # as) = reads_of as"

text \<open>
  The state as seen by everything but the relay of task \<open>i\<close>: its events are
  removed from the trace and its entry in the task list is masked.
\<close>

definition others :: "nat \<Rightarrow> state \<Rightarrow> state" where
  "others i s =
     s\<lparr>trace := filter (\<lambda>te. fst te \<noteq> T_relay i) (trace s),
       tasks := (tasks s)[i := Hook 0]\<rparr>"

text \<open>
  The events of the default dial-and-relay path: any event of a relay goroutine, the
  start of one, and the closing of an inbound or target connection.
\<close>

fun relay_work :: "thread \<times> event \<Rightarrow> bool" where
  "relay_work (T_relay i, e) = True"
| "relay_work (t, Ev_go_relay x) = True"
| "relay_work (t, Ev_close (Res_in x)) = True"
| "relay_work (t, Ev_close (Res_out x)) = True"
| "relay_work (t, e) = False"

fun is_hook :: "task \<Rightarrow> bool" where
  "is_hook (Hook x) = True"
| "is_hook (Relay x pc) = False"

fun is_conn :: "resource \<Rightarrow> bool" where
  "is_conn (Res_in x) = True"
| "is_conn (Res_out x) = True"
| "is_conn r = False"

definition hook_inv :: "state \<Rightarrow> bool" where
  "hook_inv s =
     (list_all is_hook (tasks s) \<and> filter relay_work (trace s) = []
      \<and> filter is_conn (defers s) = [])"

section \<open>Properties\<close>

subsection \<open>Basic facts about runs\<close>

lemmas step_defs = step_def step_listen_def step_accept_def step_read_def step_dial_def
  step_copy_def step_recv_def emit_def fatal_def

lemmas count_defs = signals_def sends_def listens_def handshakes_def

lemma step_exited: "exited s \<Longrightarrow> step c a s = s"
  by (simp add: step_def)

lemma exec_exited: "exited s \<Longrightarrow> exec c as s = s"
  by (induction as) (simp_all add: step_exited)

lemma exec_append: "exec c (xs @ ys) s = exec c ys (exec c xs s)"
  by (induction xs arbitrary: s) simp_all

lemma step_idle:
  "main s = M_returned \<Longrightarrow> reader s = R_absent \<Longrightarrow> tasks s = [] \<Longrightarrow> step c a s = s"
  by (cases a) (auto simp: step_defs)

lemma exec_idle:
  "main s = M_returned \<Longrightarrow> reader s = R_absent \<Longrightarrow> tasks s = [] \<Longrightarrow> exec c as s = s"
  by (induction as) (simp_all add: step_idle)

subsection \<open>Host identity mismatch\<close>

lemma NewClientConn_mismatch:
  "hs_host_key hs \<noteq> k \<Longrightarrow> NewClientConn c k hs = ([Ev_handshake (Host c)], False)"
  by (simp add: NewClientConn_def FixedHostKey_def)

lemma start_mismatch_proxy:
  assumes "env_parse_key env hostBytes = Some k" and "hs_host_key (env_handshake env) \<noteq> k"
    and "env_http_proxy env \<noteq> []"
  shows "exited (start c env) \<and> listens (trace (start c env)) = 0"
  using assms
  by (simp add: start_def connect_def connect_proxy_def NewClientConn_mismatch listens_def
      split: option.splits)

lemma start_mismatch_direct:
  assumes "env_parse_key env hostBytes = Some k" and "hs_host_key (env_handshake env) \<noteq> k"
    and "env_http_proxy env = []"
  shows "\<not> exited (start c env) \<and> main (start c env) = M_returned
       \<and> reader (start c env) = R_absent \<and> tasks (start c env) = []
       \<and> signals (trace (start c env)) = 1 \<and> listens (trace (start c env)) = 0"
  using assms
  by (simp add: start_def connect_def connect_direct_def ssh_Dial_def NewClientConn_mismatch
      count_defs)

text \<open>
  Whatever the mode, a relay that presents a host key other than the pinned one is
  rejected by the handshake and \<^verbatim>\<open>client.Listen\<close> is never called. In proxy mode the
  process then ends through \<^verbatim>\<open>log.Fatalf\<close> (line 99); in direct mode the same error
  comes back from \<^verbatim>\<open>ssh.Dial\<close> and is handled at line 105.
\<close>

lemma mismatch_never_listens:
  assumes "env_parse_key env hostBytes = Some k" and "hs_host_key (env_handshake env) \<noteq> k"
  shows "\<not> snd (NewClientConn c k (env_handshake env))
       \<and> listens (trace (Create c env sched)) = 0
       \<and> (env_http_proxy env \<noteq> [] \<longrightarrow> exited (Create c env sched))
       \<and> (env_http_proxy env = [] \<longrightarrow>
            \<not> exited (Create c env sched) \<and> main (Create c env sched) = M_returned
            \<and> signals (trace (Create c env sched)) = 1)"
proof (cases "env_http_proxy env = []")
  case True
  note d = start_mismatch_direct [OF assms True, of c]
  from d have "Create c env sched = start c env"
    by (simp add: Create_def exec_idle)
  with d True assms(2) show ?thesis
    by (simp add: NewClientConn_mismatch)
next
  case False
  note p = start_mismatch_proxy [OF assms False, of c]
  from p have "Create c env sched = start c env"
    by (simp add: Create_def exec_exited)
  with p False assms(2) show ?thesis
    by (simp add: NewClientConn_mismatch)
qed

text \<open>
  C1. The claim is that a mismatch of the pinned host key ends the process fatally,
  without a remote listener. In direct mode the code does not end the process: with the
  relay dialed and presenting the key \<open>other\<close> instead of \<open>pinned\<close>, \<^verbatim>\<open>Create\<close>
  logs \<open>failed to connect\<close>, sends the reconnect signal on the caller's channel and
  returns, so that the caller is asked to try the same relay again. The same mismatch
  behind a proxy ends the process, as the claim says.
\<close>

theorem C1_direct_mismatch_not_fatal:
  "env_http_proxy (env0\<lparr>env_handshake := other_key\<rparr>) = []
   \<and> env_parse_key (env0\<lparr>env_handshake := other_key\<rparr>) hostBytes = Some ''pinned''
   \<and> hs_host_key (env_handshake (env0\<lparr>env_handshake := other_key\<rparr>)) \<noteq> ''pinned''
   \<and> Create cfg0 (env0\<lparr>env_handshake := other_key\<rparr>) [] =
       \<lparr>trace = [(T_main, Ev_dial (Address ''relay.example:22'') True),
          (T_main, Ev_handshake ''relay.example:22''),
          (T_main, Ev_log ''failed to connect: %v''),
          (T_main, Ev_send 0 1)],
        exited = False, main = M_returned, defers = [], reader = R_absent, tasks = []\<rparr>
   \<and> Create cfg0 (env_proxy_reach\<lparr>env_handshake := other_key\<rparr>) [] =
       \<lparr>trace = [(T_main, Ev_dial (Address ''proxy.example:3128'') True),
          (T_main, Ev_connect ''relay.example:22'' None),
          (T_main, Ev_read_response True),
          (T_main, Ev_handshake ''relay.example:22''),
          (T_main, Ev_fatal ''cannot open new session: %v'')],
        exited = True, main = M_halted, defers = [], reader = R_absent, tasks = []\<rparr>"
  by (simp add: Create_def start_def connect_def connect_direct_def connect_proxy_def
      ssh_Dial_def NewClientConn_def FixedHostKey_def basic_auth_def Hostname_def
      env0_def env_proxy_def env_proxy_reach_def proxy_url1_def other_key_def cfg0_def
      EventReconnect_def)

subsection \<open>Failure to connect\<close>

lemma start_direct_dial_fails:
  assumes "env_parse_key env hostBytes = Some k" and "env_http_proxy env = []"
    and "\<not> env_dial env (Address (Host c))"
  shows "start c env =
     \<lparr>trace = [(T_main, Ev_dial (Address (Host c)) False),
               (T_main, Ev_log ''failed to connect: %v''),
               (T_main, Ev_send (Channel c) EventReconnect)],
      exited = False, main = M_returned, defers = [], reader = R_absent, tasks = []\<rparr>"
  using assms by (simp add: start_def connect_def connect_direct_def ssh_Dial_def)

lemma start_proxy_dial_fails:
  assumes "env_parse_key env hostBytes = Some k" and "env_http_proxy env \<noteq> []"
    and "env_url_parse env (env_http_proxy env) = Some u"
    and "\<not> env_dial env (Address (Hostname u))"
  shows "start c env =
     \<lparr>trace = [(T_main, Ev_dial (Address (Hostname u)) False),
               (T_main, Ev_fatal ''cannot open new session: %v'')],
      exited = True, main = M_halted, defers = [], reader = R_absent, tasks = []\<rparr>"
  using assms by (simp add: start_def connect_def connect_proxy_def)

text \<open>
  C2 (as amended). In direct mode a failed dial to the relay is recoverable: \<^verbatim>\<open>Create\<close>
  logs, sends the reconnect signal on the caller's channel and returns, and nothing
  else ever happens in that attempt. In proxy mode a failed dial to the proxy ends the
  process through \<^verbatim>\<open>log.Fatalf\<close>, and no signal is sent.
\<close>

theorem C2_connect_failure:
  assumes "env_parse_key env hostBytes = Some k"
  shows "(env_http_proxy env = [] \<and> \<not> env_dial env (Address (Host c)) \<longrightarrow>
            Create c env sched =
              \<lparr>trace = [(T_main, Ev_dial (Address (Host c)) False),
                        (T_main, Ev_log ''failed to connect: %v''),
                        (T_main, Ev_send (Channel c) EventReconnect)],
               exited = False, main = M_returned, defers = [], reader = R_absent,
               tasks = []\<rparr>)
       \<and> (env_http_proxy env \<noteq> [] \<and> env_url_parse env (env_http_proxy env) = Some u
            \<and> \<not> env_dial env (Address (Hostname u)) \<longrightarrow>
            Create c env sched =
              \<lparr>trace = [(T_main, Ev_dial (Address (Hostname u)) False),
                        (T_main, Ev_fatal ''cannot open new session: %v'')],
               exited = True, main = M_halted, defers = [], reader = R_absent,
               tasks = []\<rparr>)"
proof (intro conjI impI)
  assume a: "env_http_proxy env = [] \<and> \<not> env_dial env (Address (Host c))"
  then have s: "start c env =
     \<lparr>trace = [(T_main, Ev_dial (Address (Host c)) False),
               (T_main, Ev_log ''failed to connect: %v''),
               (T_main, Ev_send (Channel c) EventReconnect)],
      exited = False, main = M_returned, defers = [], reader = R_absent, tasks = []\<rparr>"
    using assms by (simp add: start_direct_dial_fails)
  have "exec c sched (start c env) = start c env"
    by (rule exec_idle) (simp_all add: s)
  then show "Create c env sched =
     \<lparr>trace = [(T_main, Ev_dial (Address (Host c)) False),
               (T_main, Ev_log ''failed to connect: %v''),
               (T_main, Ev_send (Channel c) EventReconnect)],
      exited = False, main = M_returned, defers = [], reader = R_absent, tasks = []\<rparr>"
    by (simp add: Create_def s)
next
  assume a: "env_http_proxy env \<noteq> [] \<and> env_url_parse env (env_http_proxy env) = Some u
            \<and> \<not> env_dial env (Address (Hostname u))"
  then have s: "start c env =
     \<lparr>trace = [(T_main, Ev_dial (Address (Hostname u)) False),
               (T_main, Ev_fatal ''cannot open new session: %v'')],
      exited = True, main = M_halted, defers = [], reader = R_absent, tasks = []\<rparr>"
    using assms by (simp add: start_proxy_dial_fails)
  have "exec c sched (start c env) = start c env"
    by (rule exec_exited) (simp add: s)
  then show "Create c env sched =
     \<lparr>trace = [(T_main, Ev_dial (Address (Hostname u)) False),
               (T_main, Ev_fatal ''cannot open new session: %v'')],
      exited = True, main = M_halted, defers = [], reader = R_absent, tasks = []\<rparr>"
    by (simp add: Create_def s)
qed

theorem C2_connect_failure_witness:
  "env_http_proxy (env0\<lparr>env_dial := (\<lambda>a. False)\<rparr>) = []
   \<and> \<not> env_dial (env0\<lparr>env_dial := (\<lambda>a. False)\<rparr>) (Address (Host cfg0))
   \<and> Create cfg0 (env0\<lparr>env_dial := (\<lambda>a. False)\<rparr>) [A_listen True, A_read (Inl EOF)] =
       \<lparr>trace = [(T_main, Ev_dial (Address ''relay.example:22'') False),
                 (T_main, Ev_log ''failed to connect: %v''),
                 (T_main, Ev_send 0 1)],
        exited = False, main = M_returned, defers = [], reader = R_absent, tasks = []\<rparr>"
  using C2_connect_failure [where env="env0\<lparr>env_dial := (\<lambda>a. False)\<rparr>" and k="''pinned''"
      and c=cfg0 and sched="[A_listen True, A_read (Inl EOF)]" and u=proxy_url0]
  by (simp add: env0_def cfg0_def EventReconnect_def)

text \<open>
  C2 as stated fails in proxy mode: when the proxy cannot be dialed the process ends and
  nothing is sent on the channel.
\<close>

theorem C2_counterexample:
  "env_http_proxy (env_proxy\<lparr>env_dial := (\<lambda>a. False)\<rparr>) \<noteq> []
   \<and> exited (Create cfg0 (env_proxy\<lparr>env_dial := (\<lambda>a. False)\<rparr>) [])
   \<and> trace (Create cfg0 (env_proxy\<lparr>env_dial := (\<lambda>a. False)\<rparr>) []) =
       [(T_main, Ev_dial (Address ''proxy.example'') False),
        (T_main, Ev_fatal ''cannot open new session: %v'')]
   \<and> signals (trace (Create cfg0 (env_proxy\<lparr>env_dial := (\<lambda>a. False)\<rparr>) [])) = 0"
  by (simp add: Create_def start_def connect_def connect_proxy_def env_proxy_def env0_def
      proxy_url0_def Hostname_def cfg0_def count_defs)

subsection \<open>The response of the proxy\<close>

lemma connect_status_irrelevant:
  "connect c (env\<lparr>env_response := Some st\<rparr>) = connect c (env\<lparr>env_response := Some st'\<rparr>)"
  by (simp add: connect_def connect_proxy_def connect_direct_def ssh_Dial_def split: option.splits)

lemma start_status_irrelevant:
  "start c (env\<lparr>env_response := Some st\<rparr>) = start c (env\<lparr>env_response := Some st'\<rparr>)"
  by (simp add: start_def connect_status_irrelevant [where c=c and env=env and st=st and st'=st']
      split: prod.splits outcome.splits)



lemma handshakes_step: "handshakes (trace (step c a s)) = handshakes (trace s)"
  by (cases a) (auto simp: step_defs handshakes_def split: option.splits reader_pc.splits
      sum.splits task.splits relay_pc.splits list.splits direction.splits)

lemma handshakes_exec: "handshakes (trace (exec c as s)) = handshakes (trace s)"
  by (induction as arbitrary: s) (simp_all add: handshakes_step)

lemma handshakes_NewClientConn:
  "length (filter is_handshake (fst (NewClientConn c k hs))) = 1"
  by (simp add: NewClientConn_def BannerCallback_def split: option.splits)

lemma start_proxy_response:
  assumes "env_parse_key env hostBytes = Some k" and "env_http_proxy env \<noteq> []"
    and "env_url_parse env (env_http_proxy env) = Some u"
    and "env_dial env (Address (Hostname u))"
  shows "(env_response env = None \<longrightarrow>
            exited (start c env) \<and> handshakes (trace (start c env)) = 0)
       \<and> (env_response env = Some status \<longrightarrow> handshakes (trace (start c env)) = 1)"
  using assms handshakes_NewClientConn [of c k "env_handshake env"]
  by (auto simp: start_def connect_def connect_proxy_def handshakes_def filter_map o_def
      split: prod.splits)

text \<open>
  C3 (as amended). In proxy mode, once the proxy is dialed: when reading the response to
  the CONNECT request fails, the process ends fatally and no handshake is attempted;
  when a response is read, the handshake is attempted whatever the status code, and the
  whole run is the one a response with status 200 gives.
\<close>

theorem C3_status_not_inspected:
  assumes "env_parse_key env hostBytes = Some k" and "env_http_proxy env \<noteq> []"
    and "env_url_parse env (env_http_proxy env) = Some u"
    and "env_dial env (Address (Hostname u))"
  shows "(env_response env = None \<longrightarrow>
            exited (Create c env sched) \<and> handshakes (trace (Create c env sched)) = 0)
       \<and> (env_response env = Some status \<longrightarrow>
            handshakes (trace (Create c env sched)) = 1
            \<and> Create c env sched = Create c (env\<lparr>env_response := Some 200\<rparr>) sched)"
proof -
  note r = start_proxy_response [OF assms, where status=status and c=c]
  have a: "exited (Create c env sched) \<and> handshakes (trace (Create c env sched)) = 0"
    if "env_response env = None"
  proof -
    from r that have e: "exited (start c env)" and h: "handshakes (trace (start c env)) = 0"
      by blast+
    from e have "Create c env sched = start c env"
      by (simp add: Create_def exec_exited)
    with e h show ?thesis by simp
  qed
  have b: "handshakes (trace (Create c env sched)) = 1" if "env_response env = Some status"
    using r that by (simp add: Create_def handshakes_exec)
  have d: "Create c env sched = Create c (env\<lparr>env_response := Some 200\<rparr>) sched"
    if "env_response env = Some status"
  proof -
    from that have "env\<lparr>env_response := Some status\<rparr> = env" by simp
    then show ?thesis
      using start_status_irrelevant [where c=c and env=env and st=status and st'=200]
      by (simp add: Create_def)
  qed
  from a b d show ?thesis by blast
qed

theorem C3_status_not_inspected_witness:
  "env_response (env_proxy_reach\<lparr>env_response := Some 403\<rparr>) = Some 403
   \<and> handshakes (trace (Create cfg0 (env_proxy_reach\<lparr>env_response := Some 403\<rparr>) [A_listen True])) = 1
   \<and> Create cfg0 (env_proxy_reach\<lparr>env_response := Some 403\<rparr>) [A_listen True]
       = Create cfg0 (env_proxy_reach\<lparr>env_response := Some 403, env_response := Some 200\<rparr>) [A_listen True]"
proof -
  have h1: "env_parse_key (env_proxy_reach\<lparr>env_response := Some 403\<rparr>) hostBytes = Some ''pinned''"
    by (simp add: env_proxy_reach_def env_proxy_def env0_def proxy_url1_def Hostname_def)
  have h2: "env_http_proxy (env_proxy_reach\<lparr>env_response := Some 403\<rparr>) \<noteq> []"
    by (simp add: env_proxy_reach_def env_proxy_def env0_def proxy_url1_def Hostname_def)
  have h3: "env_url_parse (env_proxy_reach\<lparr>env_response := Some 403\<rparr>)
      (env_http_proxy (env_proxy_reach\<lparr>env_response := Some 403\<rparr>)) = Some proxy_url1"
    by (simp add: env_proxy_reach_def env_proxy_def env0_def proxy_url1_def Hostname_def)
  have h4: "env_dial (env_proxy_reach\<lparr>env_response := Some 403\<rparr>) (Address (Hostname proxy_url1))"
    by (simp add: env_proxy_reach_def env_proxy_def env0_def proxy_url1_def Hostname_def)
  have h5: "env_response (env_proxy_reach\<lparr>env_response := Some 403\<rparr>) = Some 403"
    by simp
  from C3_status_not_inspected [OF h1 h2 h3 h4, where status=403 and c=cfg0
      and sched="[A_listen True]"] h5
  show ?thesis by blast
qed

text \<open>
  C3 as stated fails: with the proxy \<open>proxy.example:3128\<close> reached and answering the
  CONNECT request with status 403, the attempt goes on to the handshake and, the relay
  accepting it, to the remote listener.
\<close>

theorem C3_counterexample:
  "env_http_proxy (env_proxy_reach\<lparr>env_response := Some 403\<rparr>) \<noteq> []
   \<and> env_response (env_proxy_reach\<lparr>env_response := Some 403\<rparr>) = Some 403
   \<and> \<not> exited (Create cfg0 (env_proxy_reach\<lparr>env_response := Some 403\<rparr>) [A_listen True])
   \<and> trace (Create cfg0 (env_proxy_reach\<lparr>env_response := Some 403\<rparr>) [A_listen True]) =
       [(T_main, Ev_dial (Address ''proxy.example:3128'') True),
        (T_main, Ev_connect ''relay.example:22'' None),
        (T_main, Ev_read_response True),
        (T_main, Ev_handshake ''relay.example:22''),
        (T_main, Ev_listen (HostPort ''0.0.0.0'' 9000) True)]"
  by (simp add: Create_def start_def connect_def connect_proxy_def NewClientConn_def
      FixedHostKey_def basic_auth_def env_proxy_reach_def env_proxy_def env0_def proxy_url1_def
      Hostname_def
      cfg0_def step_defs)

subsection \<open>The address of the proxy\<close>







subsection \<open>The reconnect signal\<close>

lemma sends_append: "sends (xs @ ys) = sends xs @ sends ys"
  by (simp add: sends_def)

lemma sends_Nil: "sends [] = []"
  by (simp add: sends_def)

lemma sends_Cons: "sends (te # tr) = (if is_send (snd te) then te # sends tr else sends tr)"
  by (simp add: sends_def)

lemma sends_map_Pair: "sends (map (Pair t) evs) = map (Pair t) (filter is_send evs)"
  by (simp add: sends_def filter_map o_def)

lemma no_send_NewClientConn: "filter is_send (fst (NewClientConn c k hs)) = []"
  by (simp add: NewClientConn_def BannerCallback_def split: option.splits)

lemma connect_proxy_sends:
  "filter is_send (fst (connect_proxy c k env)) = [] \<and> snd (connect_proxy c k env) \<noteq> Returned"
proof (cases "NewClientConn c k (env_handshake env)")
  case (Pair evs ok)
  with no_send_NewClientConn [of c k "env_handshake env"] show ?thesis
    by (simp add: connect_proxy_def split: option.splits)
qed

lemma connect_direct_sends:
  "filter is_send (fst (connect_direct c k env)) =
     (if snd (connect_direct c k env) = Returned then [Ev_send (Channel c) EventReconnect] else [])"
proof (cases "NewClientConn c k (env_handshake env)")
  case (Pair evs ok)
  with no_send_NewClientConn [of c k "env_handshake env"] show ?thesis
    by (simp add: connect_direct_def ssh_Dial_def)
qed

lemma connect_sends:
  "filter is_send (fst (connect c env)) =
     (if snd (connect c env) = Returned then [Ev_send (Channel c) EventReconnect] else [])"
  by (cases "env_parse_key env hostBytes")
    (simp_all add: connect_def connect_proxy_sends connect_direct_sends)

lemma sig_inv_start: "sig_inv c (start c env)"
proof (cases "connect c env")
  case (Pair evs out)
  with connect_sends [of c env] show ?thesis
    by (cases out)
      (simp_all add: start_def sig_inv_def signals_def sends_map_Pair sends_append sends_Cons
        sends_Nil)
qed

lemma sends_step_listen:
  "sends (trace (step_listen c ok s)) = sends (trace s)
   \<and> reader (step_listen c ok s) = reader s"
  by (simp add: step_listen_def emit_def fatal_def sends_def)

lemma sends_step_accept:
  "sends (trace (step_accept c r s)) = sends (trace s)
   \<and> reader (step_accept c r s) = reader s"
  by (simp add: step_accept_def emit_def sends_def filter_empty_conv split: option.splits)

lemma sends_step_dial:
  "sends (trace (step_dial c i ok s)) = sends (trace s)
   \<and> reader (step_dial c i ok s) = reader s"
  by (simp add: step_dial_def emit_def sends_def split: task.splits relay_pc.splits)

lemma sends_step_copy:
  "sends (trace (step_copy i d e s)) = sends (trace s)
   \<and> reader (step_copy i d e s) = reader s"
  by (simp add: step_copy_def split: task.splits relay_pc.splits direction.splits)

lemma sends_step_recv:
  "sends (trace (step_recv i s)) = sends (trace s)
   \<and> reader (step_recv i s) = reader s"
  by (simp add: step_recv_def emit_def sends_def split: task.splits relay_pc.splits list.splits)

lemma sig_inv_step_read: "sig_inv c s \<Longrightarrow> sig_inv c (step_read c r s)"
  by (cases "reader s"; cases r)
    (auto simp: sig_inv_def signals_def sends_def step_read_def emit_def fatal_def)

lemma sig_inv_step: "sig_inv c s \<Longrightarrow> sig_inv c (step c a s)"
proof (cases a)
  case (A_read r)
  then show "sig_inv c s \<Longrightarrow> sig_inv c (step c a s)"
    by (simp add: step_def sig_inv_step_read)
qed (simp_all add: step_def sig_inv_def signals_def sends_step_listen sends_step_accept
    sends_step_dial sends_step_copy sends_step_recv)

lemma sig_inv_exec: "sig_inv c s \<Longrightarrow> sig_inv c (exec c as s)"
  by (induction as arbitrary: s) (simp_all add: sig_inv_step)

text \<open>
  C9. Whatever the environment and the schedule, the trace of one call of \<^verbatim>\<open>Create\<close>
  holds at most one send on the caller's channel, and a send is made either by the main
  goroutine (connect failure) or by the reader (end of the control stream).
\<close>

theorem C9_at_most_one_signal:
  "signals (trace (Create c env sched)) \<le> 1
   \<and> set (sends (trace (Create c env sched)))
       \<subseteq> {(T_main, Ev_send (Channel c) EventReconnect),
          (T_reader, Ev_send (Channel c) EventReconnect)}"
proof -
  have "sig_inv c (Create c env sched)"
    by (simp add: Create_def sig_inv_exec sig_inv_start)
  then show ?thesis
    by (auto simp: sig_inv_def split: reader_pc.splits)
qed

theorem C9_at_most_one_signal_witness:
  "signals (trace (Create cfg0 env0 [A_listen True, A_read (Inl EOF), A_read (Inl EOF),
      A_accept None])) = 1"
proof -
  have "signals (trace (Create cfg0 env0 [A_listen True, A_read (Inl EOF), A_read (Inl EOF),
      A_accept None])) \<le> 1"
    using C9_at_most_one_signal [of cfg0 env0] by blast
  moreover have "1 \<le> signals (trace (Create cfg0 env0 [A_listen True, A_read (Inl EOF),
      A_read (Inl EOF), A_accept None]))"
    by (simp add: Create_def start_def connect_def connect_direct_def ssh_Dial_def
        NewClientConn_def FixedHostKey_def env0_def cfg0_def step_defs count_defs)
  ultimately show ?thesis by simp
qed

subsection \<open>The control output reader\<close>

lemma step_read_line:
  "\<not> exited s \<Longrightarrow> reader s = R_reading True \<Longrightarrow>
   step c (A_read (Inr l)) s = s\<lparr>trace := trace s @ [(T_reader, Ev_print (l @ [CHR 0x0A]))]\<rparr>"
  by (simp add: step_def step_read_def emit_def)

lemma step_read_EOF:
  "\<not> exited s \<Longrightarrow> reader s = R_reading True \<Longrightarrow>
   step c (A_read (Inl EOF)) s =
     s\<lparr>trace := trace s @ [(T_reader, Ev_send (Channel c) EventReconnect)],
       reader := R_stopped\<rparr>"
  by (simp add: step_def step_read_def emit_def)

lemma step_read_Err:
  "\<not> exited s \<Longrightarrow> reader s = R_reading True \<Longrightarrow>
   step c (A_read (Inl (Err m))) s =
     s\<lparr>trace := trace s @ [(T_reader, Ev_fatal ''failed to read: %v'')], exited := True\<rparr>"
  by (simp add: step_def step_read_def emit_def fatal_def)

lemma step_read_stopped: "reader s = R_stopped \<Longrightarrow> step c (A_read r) s = s"
  by (simp add: step_def step_read_def)

lemma exec_reads_stopped: "reader s = R_stopped \<Longrightarrow> exec c (map A_read rs) s = s"
  by (induction rs) (simp_all add: step_read_stopped)

lemma exec_read_lines:
  "\<not> exited s \<Longrightarrow> reader s = R_reading True \<Longrightarrow>
   exec c (map (\<lambda>l. A_read (Inr l)) ls) s =
     s\<lparr>trace := trace s @ map (\<lambda>l. (T_reader, Ev_print (l @ [CHR 0x0A]))) ls\<rparr>"
proof (induction ls arbitrary: s)
  case Nil
  then show ?case by simp
next
  case (Cons l ls)
  let ?s = "s\<lparr>trace := trace s @ [(T_reader, Ev_print (l @ [CHR 0x0A]))]\<rparr>"
  have "exec c (map (\<lambda>l. A_read (Inr l)) (l # ls)) s = exec c (map (\<lambda>l. A_read (Inr l)) ls) ?s"
    using Cons.prems by (simp add: step_read_line)
  also have "\<dots> = ?s\<lparr>trace := trace ?s @ map (\<lambda>l. (T_reader, Ev_print (l @ [CHR 0x0A]))) ls\<rparr>"
    using Cons.prems by (intro Cons.IH) simp_all
  finally show ?case by simp
qed

lemma events_of_append: "events_of t (xs @ ys) = events_of t xs @ events_of t ys"
  by (simp add: events_of_def)

lemma reader_view_step_other:
  assumes "\<And>r. a \<noteq> A_read r"
  shows "reader (step c a s) = reader s
       \<and> events_of T_reader (trace (step c a s)) = events_of T_reader (trace s)"
proof (cases a)
  case (A_read r)
  with assms show ?thesis by blast
qed (simp_all add: step_defs events_of_def split: option.splits task.splits relay_pc.splits
    list.splits direction.splits)

lemma reader_output_interleaved:
  "\<not> exited (exec c sched s) \<Longrightarrow> reader s = R_reading True \<or> reader s = R_stopped \<Longrightarrow>
   events_of T_reader (trace (exec c sched s)) =
     events_of T_reader (trace s)
       @ (if reader s = R_stopped then [] else reader_output c (reads_of sched))"
proof (induction sched arbitrary: s)
  case Nil
  then show ?case by simp
next
  case (Cons a as)
  have live: "\<not> exited s"
    using Cons.prems(1) by (auto simp: step_exited exec_exited)
  show ?case
  proof (cases "\<exists>r. a = A_read r")
    case True
    then obtain r where A_read: "a = A_read r" by blast
    show ?thesis
    proof (cases "reader s = R_stopped")
      case True
      then have "step c a s = s" using A_read by (simp add: step_read_stopped)
      with Cons True A_read show ?thesis by simp
    next
      case False
      with Cons.prems have rd: "reader s = R_reading True" by simp
      show ?thesis
      proof (cases r)
        case (Inr l)
        let ?s = "s\<lparr>trace := trace s @ [(T_reader, Ev_print (l @ [CHR 0x0A]))]\<rparr>"
        have st: "step c a s = ?s"
          using live rd A_read Inr by (simp add: step_read_line)
        have "events_of T_reader (trace (exec c as ?s)) =
            events_of T_reader (trace ?s)
              @ (if reader ?s = R_stopped then [] else reader_output c (reads_of as))"
          using Cons.prems rd st by (intro Cons.IH) simp_all
        with rd st A_read Inr show ?thesis
          by (simp add: events_of_def)
      next
        case (Inl e)
        show ?thesis
        proof (cases e)
          case EOF
          let ?s = "s\<lparr>trace := trace s @ [(T_reader, Ev_send (Channel c) EventReconnect)],
            reader := R_stopped\<rparr>"
          have st: "step c a s = ?s"
            using live rd A_read Inl EOF by (simp add: step_read_EOF)
          have "events_of T_reader (trace (exec c as ?s)) =
              events_of T_reader (trace ?s)
                @ (if reader ?s = R_stopped then [] else reader_output c (reads_of as))"
            using Cons.prems st by (intro Cons.IH) simp_all
          with rd st A_read Inl EOF show ?thesis
            by (simp add: events_of_def)
        next
          case (Err m)
          have "exited (step c a s)"
            using live rd A_read Inl Err by (simp add: step_read_Err)
          then have "exited (exec c (a # as) s)"
            by (simp add: exec_exited)
          with Cons.prems(1) show ?thesis by simp
        qed
      qed
    qed
  next
    case False
    then have o: "\<And>r. a \<noteq> A_read r" by blast
    then have ro: "reads_of (a # as) = reads_of as"
      by (cases a) auto
    note v = reader_view_step_other [OF o, of c s]
    have "events_of T_reader (trace (exec c as (step c a s))) =
        events_of T_reader (trace (step c a s))
          @ (if reader (step c a s) = R_stopped then [] else reader_output c (reads_of as))"
      using Cons.prems v by (intro Cons.IH) simp_all
    with v ro show ?thesis by simp
  qed
qed

text \<open>
  C4. On a session whose reader loops on a valid pipe: the lines read are printed, in
  order; end of stream makes the reader send the reconnect signal once and stop, later
  reads not happening; any other read error ends the process. Interleaved with any
  actions of the other goroutines, and as long as the process lives, the reader's events
  are those of \<open>reader_output\<close> on the reads it made.
\<close>

theorem C4_control_output_reader:
  assumes "\<not> exited s" and "reader s = R_reading True"
  shows "exec c (map (\<lambda>l. A_read (Inr l)) ls) s =
           s\<lparr>trace := trace s @ map (\<lambda>l. (T_reader, Ev_print (l @ [CHR 0x0A]))) ls\<rparr>
       \<and> exec c (map (\<lambda>l. A_read (Inr l)) ls @ A_read (Inl EOF) # map A_read rest) s =
           s\<lparr>trace := trace s @ map (\<lambda>l. (T_reader, Ev_print (l @ [CHR 0x0A]))) ls
                   @ [(T_reader, Ev_send (Channel c) EventReconnect)],
             reader := R_stopped\<rparr>
       \<and> exec c (map (\<lambda>l. A_read (Inr l)) ls @ A_read (Inl (Err m)) # sched) s =
           s\<lparr>trace := trace s @ map (\<lambda>l. (T_reader, Ev_print (l @ [CHR 0x0A]))) ls
                   @ [(T_reader, Ev_fatal ''failed to read: %v'')],
             exited := True\<rparr>
       \<and> (\<not> exited (exec c sched' s) \<longrightarrow>
            events_of T_reader (trace (exec c sched' s)) =
              events_of T_reader (trace s) @ reader_output c (reads_of sched'))"
proof -
  let ?s = "s\<lparr>trace := trace s @ map (\<lambda>l. (T_reader, Ev_print (l @ [CHR 0x0A]))) ls\<rparr>"
  have l: "exec c (map (\<lambda>l. A_read (Inr l)) ls) s = ?s"
    using assms by (rule exec_read_lines)
  have live: "\<not> exited ?s" and rd: "reader ?s = R_reading True"
    using assms by simp_all
  have e: "exec c (map (\<lambda>l. A_read (Inr l)) ls @ A_read (Inl EOF) # map A_read rest) s =
      s\<lparr>trace := trace s @ map (\<lambda>l. (T_reader, Ev_print (l @ [CHR 0x0A]))) ls
              @ [(T_reader, Ev_send (Channel c) EventReconnect)],
        reader := R_stopped\<rparr>"
    by (simp add: exec_append l step_read_EOF [OF live rd] exec_reads_stopped)
  have f: "exec c (map (\<lambda>l. A_read (Inr l)) ls @ A_read (Inl (Err m)) # sched) s =
      s\<lparr>trace := trace s @ map (\<lambda>l. (T_reader, Ev_print (l @ [CHR 0x0A]))) ls
              @ [(T_reader, Ev_fatal ''failed to read: %v'')],
        exited := True\<rparr>"
    by (simp add: exec_append l step_read_Err [OF live rd] exec_exited)
  have i: "events_of T_reader (trace (exec c sched' s)) =
      events_of T_reader (trace s) @ reader_output c (reads_of sched')"
    if "\<not> exited (exec c sched' s)"
    using reader_output_interleaved [OF that] assms(2) by simp
  from l e f i show ?thesis by blast
qed

theorem C4_control_output_reader_witness:
  "\<not> exited (Create cfg0 env0 []) \<and> reader (Create cfg0 env0 []) = R_reading True
   \<and> exec cfg0 (map (\<lambda>l. A_read (Inr l)) [''hello''] @ A_read (Inl EOF) # map A_read [Inl EOF])
       (Create cfg0 env0 []) =
     (Create cfg0 env0 [])
       \<lparr>trace := trace (Create cfg0 env0 [])
            @ map (\<lambda>l. (T_reader, Ev_print (l @ [CHR 0x0A]))) [''hello'']
            @ [(T_reader, Ev_send (Channel cfg0) EventReconnect)],
        reader := R_stopped\<rparr>"
proof -
  have h1: "\<not> exited (Create cfg0 env0 [])"
    by (simp add: Create_def start_def connect_def connect_direct_def ssh_Dial_def
        NewClientConn_def FixedHostKey_def env0_def)
  have h2: "reader (Create cfg0 env0 []) = R_reading True"
    by (simp add: Create_def start_def connect_def connect_direct_def ssh_Dial_def
        NewClientConn_def FixedHostKey_def env0_def)
  from C4_control_output_reader [OF h1 h2, where c=cfg0 and ls="[''hello'']"
      and rest="[Inl EOF]"] h1 h2
  show ?thesis by blast
qed

subsection \<open>The remote listener and the accept loop\<close>

lemma step_listen_fails:
  "\<not> exited s \<Longrightarrow> main s = M_listen \<Longrightarrow>
   step c (A_listen False) s =
     s\<lparr>trace := trace s @
         [(T_main, Ev_listen (HostPort (RemoteHost c) (RemotePort c)) False),
          (T_main, Ev_fatal ''failed to listen on remote host: %v'')],
       exited := True\<rparr>"
  by (simp add: step_def step_listen_def emit_def fatal_def)

lemma step_accept_fails:
  "\<not> exited s \<Longrightarrow> main s = M_accept \<Longrightarrow>
   step c (A_accept None) s =
     s\<lparr>trace := trace s @ (T_main, Ev_log ''failed to accept connection: %v'')
         # map (\<lambda>r. (T_main, Ev_close r)) (defers s),
       main := M_returned, defers := []\<rparr>"
  by (simp add: step_def step_accept_def emit_def)

lemma returned_step:
  "main s = M_returned \<Longrightarrow>
   main (step c a s) = M_returned
   \<and> events_of T_main (trace (step c a s)) = events_of T_main (trace s)"
  by (cases a)
    (simp_all add: step_defs events_of_def split: option.splits task.splits relay_pc.splits
      list.splits direction.splits reader_pc.splits sum.splits)

lemma returned_exec:
  "main s = M_returned \<Longrightarrow>
   main (exec c as s) = M_returned
   \<and> events_of T_main (trace (exec c as s)) = events_of T_main (trace s)"
proof (induction as arbitrary: s)
  case Nil
  then show ?case by simp
next
  case (Cons a as)
  from Cons.prems have r: "main (step c a s) = M_returned"
    and e: "events_of T_main (trace (step c a s)) = events_of T_main (trace s)"
    using returned_step [of s c a] by simp_all
  from Cons.IH [OF r] e show ?case by simp
qed

text \<open>
  C5 (as amended). When \<^verbatim>\<open>client.Listen\<close> fails the process ends through
  \<^verbatim>\<open>log.Fatalf\<close>. When \<^verbatim>\<open>ln.Accept\<close> fails the main goroutine logs, runs the
  deferred closes and returns: the process lives, that step adds no send to the trace,
  and whatever is scheduled afterwards the main goroutine stays returned, adds no event
  and so never sends. The attempt as a whole is not silent, though: the reader of the
  same attempt still sends the reconnect signal when it reads the end of the control
  stream, for instance right after the return.
\<close>

theorem C5_listen_fatal_accept_returns:
  assumes "\<not> exited s"
  shows "(main s = M_listen \<longrightarrow>
            step c (A_listen False) s =
              s\<lparr>trace := trace s @
                  [(T_main, Ev_listen (HostPort (RemoteHost c) (RemotePort c)) False),
                   (T_main, Ev_fatal ''failed to listen on remote host: %v'')],
                exited := True\<rparr>)
       \<and> (main s = M_accept \<longrightarrow>
            step c (A_accept None) s =
              s\<lparr>trace := trace s @ (T_main, Ev_log ''failed to accept connection: %v'')
                  # map (\<lambda>r. (T_main, Ev_close r)) (defers s),
                main := M_returned, defers := []\<rparr>
            \<and> signals (trace (step c (A_accept None) s)) = signals (trace s)
            \<and> main (exec c sched (step c (A_accept None) s)) = M_returned
            \<and> events_of T_main (trace (exec c sched (step c (A_accept None) s)))
                = events_of T_main (trace (step c (A_accept None) s))
            \<and> filter is_send (events_of T_main (trace (exec c sched (step c (A_accept None) s))))
                = filter is_send (events_of T_main (trace s)))
       \<and> (main s = M_accept \<and> reader s = R_reading True \<longrightarrow>
            main (exec c [A_accept None, A_read (Inl EOF)] s) = M_returned
            \<and> signals (trace (exec c [A_accept None, A_read (Inl EOF)] s))
                = signals (trace s) + 1)"
proof -
  let ?s = "s\<lparr>trace := trace s @ (T_main, Ev_log ''failed to accept connection: %v'')
      # map (\<lambda>r. (T_main, Ev_close r)) (defers s),
    main := M_returned, defers := []\<rparr>"
  have a: "step c (A_listen False) s =
      s\<lparr>trace := trace s @
          [(T_main, Ev_listen (HostPort (RemoteHost c) (RemotePort c)) False),
           (T_main, Ev_fatal ''failed to listen on remote host: %v'')],
        exited := True\<rparr>" if "main s = M_listen"
    using assms that by (rule step_listen_fails)
  have b: "step c (A_accept None) s = ?s" if "main s = M_accept"
    using assms that by (rule step_accept_fails)
  have d: "signals (trace (step c (A_accept None) s)) = signals (trace s)"
    using assms by (simp add: step_def signals_def sends_step_accept)
  have r: "main (step c (A_accept None) s) = M_returned" if "main s = M_accept"
    using b [OF that] by simp
  have e: "main (exec c sched (step c (A_accept None) s)) = M_returned
      \<and> events_of T_main (trace (exec c sched (step c (A_accept None) s)))
          = events_of T_main (trace (step c (A_accept None) s))" if "main s = M_accept"
    using returned_exec [OF r [OF that]] .
  have f: "filter is_send (events_of T_main (trace (exec c sched (step c (A_accept None) s))))
      = filter is_send (events_of T_main (trace s))" if "main s = M_accept"
  proof -
    have "filter is_send (events_of T_main (trace ?s)) = filter is_send (events_of T_main (trace s))"
      by (simp add: events_of_def filter_map o_def filter_empty_conv)
    with e [OF that] b [OF that] show ?thesis by simp
  qed
  have g: "main (exec c [A_accept None, A_read (Inl EOF)] s) = M_returned
      \<and> signals (trace (exec c [A_accept None, A_read (Inl EOF)] s)) = signals (trace s) + 1"
    if "main s = M_accept \<and> reader s = R_reading True"
  proof -
    from that have m: "main s = M_accept" and rd: "reader s = R_reading True"
      by simp_all
    have live: "\<not> exited ?s" and rd': "reader ?s = R_reading True"
      using assms rd by simp_all
    have x: "exec c [A_accept None, A_read (Inl EOF)] s =
        ?s\<lparr>trace := trace ?s @ [(T_reader, Ev_send (Channel c) EventReconnect)],
          reader := R_stopped\<rparr>"
      by (simp only: exec.simps b [OF m] step_read_EOF [OF live rd'])
    have sg: "signals (trace ?s) = signals (trace s)"
      using d b [OF m] by simp
    show ?thesis
      unfolding x using sg by (simp add: signals_def sends_append sends_Cons sends_Nil)
  qed
  from a b d e f g show ?thesis by blast
qed

theorem C5_listen_fatal_accept_returns_witness:
  "\<not> exited (Create cfg0 env0 [A_listen True])
   \<and> main (Create cfg0 env0 [A_listen True]) = M_accept
   \<and> reader (Create cfg0 env0 [A_listen True]) = R_reading True
   \<and> signals (trace (step cfg0 (A_accept None) (Create cfg0 env0 [A_listen True])))
       = signals (trace (Create cfg0 env0 [A_listen True]))
   \<and> main (exec cfg0 [A_accept (Some 7)]
       (step cfg0 (A_accept None) (Create cfg0 env0 [A_listen True]))) = M_returned
   \<and> signals (trace (exec cfg0 [A_accept None, A_read (Inl EOF)]
         (Create cfg0 env0 [A_listen True])))
       = signals (trace (Create cfg0 env0 [A_listen True])) + 1"
proof -
  have h1: "\<not> exited (Create cfg0 env0 [A_listen True])"
    by (simp add: Create_def start_def connect_def connect_direct_def ssh_Dial_def
        NewClientConn_def FixedHostKey_def env0_def step_defs)
  have h2: "main (Create cfg0 env0 [A_listen True]) = M_accept"
    by (simp add: Create_def start_def connect_def connect_direct_def ssh_Dial_def
        NewClientConn_def FixedHostKey_def env0_def step_defs)
  have h3: "reader (Create cfg0 env0 [A_listen True]) = R_reading True"
    by (simp add: Create_def start_def connect_def connect_direct_def ssh_Dial_def
        NewClientConn_def FixedHostKey_def env0_def step_defs)
  from C5_listen_fatal_accept_returns [OF h1, where c=cfg0 and sched="[A_accept (Some 7)]"]
    h1 h2 h3
  show ?thesis by blast
qed

text \<open>
  C5 as stated fails: on an established session whose \<^verbatim>\<open>ln.Accept\<close> fails,
  \<^verbatim>\<open>Create\<close> returns and closes the listener, the session and the client; the reader
  then reads the end of the control stream and sends the reconnect signal, so the
  attempt has emitted one.
\<close>

theorem C5_counterexample:
  "Create cfg0 env0 [A_listen True, A_accept None, A_read (Inl EOF)] =
     \<lparr>trace = [(T_main, Ev_dial (Address ''relay.example:22'') True),
        (T_main, Ev_handshake ''relay.example:22''),
        (T_main, Ev_listen (HostPort ''0.0.0.0'' 9000) True),
        (T_main, Ev_log ''failed to accept connection: %v''),
        (T_main, Ev_close Res_listener),
        (T_main, Ev_close Res_session),
        (T_main, Ev_close Res_client),
        (T_reader, Ev_send 0 1)],
      exited = False, main = M_returned, defers = [], reader = R_stopped, tasks = []\<rparr>
   \<and> signals (trace (Create cfg0 env0 [A_listen True, A_accept None, A_read (Inl EOF)])) = 1"
  by (simp add: Create_def start_def connect_def connect_direct_def ssh_Dial_def
      NewClientConn_def FixedHostKey_def env0_def cfg0_def step_defs count_defs
      EventReconnect_def)

subsection \<open>One relay among the others\<close>

lemma others_eq_iff:
  "others i s = others i s' \<longleftrightarrow>
     exited s = exited s' \<and> main s = main s' \<and> defers s = defers s' \<and> reader s = reader s'
     \<and> filter (\<lambda>te. fst te \<noteq> T_relay i) (trace s) = filter (\<lambda>te. fst te \<noteq> T_relay i) (trace s')
     \<and> (tasks s)[i := Hook 0] = (tasks s')[i := Hook 0]"
  by (cases s; cases s') (simp add: others_def, blast)

lemma masked_length:
  assumes "xs[i := h] = ys[i := h]"
  shows "length xs = length ys"
proof -
  have "length (xs[i := h]) = length (ys[i := h])"
    by (simp only: assms)
  then show ?thesis by simp
qed

lemma masked_nth:
  assumes "xs[i := h] = ys[i := h]" and "j \<noteq> i"
  shows "xs ! j = ys ! j"
proof -
  have "(xs[i := h]) ! j = (ys[i := h]) ! j"
    by (simp only: assms(1))
  with assms(2) show ?thesis by simp
qed

lemma masked_update:
  assumes "xs[i := h] = ys[i := h]" and "j \<noteq> i"
  shows "(xs[j := t])[i := h] = (ys[j := t])[i := h]"
proof -
  have "(xs[j := t])[i := h] = (xs[i := h])[j := t]"
    using assms(2) by (simp add: list_update_swap)
  also have "\<dots> = (ys[i := h])[j := t]"
    by (simp only: assms(1))
  also have "\<dots> = (ys[j := t])[i := h]"
    using assms(2) by (simp add: list_update_swap)
  finally show ?thesis .
qed

lemma masked_append:
  assumes "xs[i := h] = ys[i := h]"
  shows "(xs @ [t])[i := h] = (ys @ [t])[i := h]"
proof -
  have l: "length xs = length ys"
    using assms by (rule masked_length)
  show ?thesis
  proof (cases "i < length xs")
    case True
    then have "(xs @ [t])[i := h] = xs[i := h] @ [t]"
      by (simp add: list_update_append)
    also have "\<dots> = ys[i := h] @ [t]"
      by (simp only: assms)
    also have "\<dots> = (ys @ [t])[i := h]"
      using True l by (simp add: list_update_append)
    finally show ?thesis .
  next
    case False
    then have "xs[i := h] = xs" and "ys[i := h] = ys"
      using l by (simp_all add: list_update_beyond)
    with assms have "xs = ys" by simp
    then show ?thesis by simp
  qed
qed

lemma others_own_dial: "others i (step_dial c i ok s) = others i s"
  by (simp add: step_dial_def emit_def others_def split: task.splits relay_pc.splits)

lemma others_own_copy: "others i (step_copy i d e s) = others i s"
  by (simp add: step_copy_def others_def split: task.splits relay_pc.splits direction.splits)

lemma others_own_recv: "others i (step_recv i s) = others i s"
  by (simp add: step_recv_def emit_def others_def split: task.splits relay_pc.splits list.splits)

lemma others_listen:
  assumes "others i s = others i s'"
  shows "others i (step_listen c ok s) = others i (step_listen c ok s')"
proof -
  from assms have e: "exited s = exited s'" "main s = main s'" "defers s = defers s'"
      "reader s = reader s'"
    and t: "filter (\<lambda>te. fst te \<noteq> T_relay i) (trace s)
        = filter (\<lambda>te. fst te \<noteq> T_relay i) (trace s')"
    and m: "(tasks s)[i := Hook 0] = (tasks s')[i := Hook 0]"
    by (simp_all add: others_eq_iff)
  show ?thesis
    unfolding others_eq_iff using e t m
    by (simp add: step_listen_def emit_def fatal_def)
qed

lemma others_accept:
  assumes "others i s = others i s'"
  shows "others i (step_accept c r s) = others i (step_accept c r s')"
proof -
  from assms have e: "exited s = exited s'" "main s = main s'" "defers s = defers s'"
      "reader s = reader s'"
    and t: "filter (\<lambda>te. fst te \<noteq> T_relay i) (trace s)
        = filter (\<lambda>te. fst te \<noteq> T_relay i) (trace s')"
    and m: "(tasks s)[i := Hook 0] = (tasks s')[i := Hook 0]"
    by (simp_all add: others_eq_iff)
  show ?thesis
    unfolding others_eq_iff using e t m masked_append [OF m]
    by (simp add: step_accept_def emit_def split: option.splits)
qed

lemma others_read:
  assumes "others i s = others i s'"
  shows "others i (step_read c r s) = others i (step_read c r s')"
proof -
  from assms have e: "exited s = exited s'" "main s = main s'" "defers s = defers s'"
      "reader s = reader s'"
    and t: "filter (\<lambda>te. fst te \<noteq> T_relay i) (trace s)
        = filter (\<lambda>te. fst te \<noteq> T_relay i) (trace s')"
    and m: "(tasks s)[i := Hook 0] = (tasks s')[i := Hook 0]"
    by (simp_all add: others_eq_iff)
  show ?thesis
    unfolding others_eq_iff using e t m
    by (simp add: step_read_def emit_def fatal_def split: reader_pc.splits sum.splits)
qed

lemma others_dial:
  assumes "others i s = others i s'" and "j \<noteq> i"
  shows "others i (step_dial c j ok s) = others i (step_dial c j ok s')"
proof -
  from assms have e: "exited s = exited s'" "main s = main s'" "defers s = defers s'"
      "reader s = reader s'"
    and t: "filter (\<lambda>te. fst te \<noteq> T_relay i) (trace s)
        = filter (\<lambda>te. fst te \<noteq> T_relay i) (trace s')"
    and m: "(tasks s)[i := Hook 0] = (tasks s')[i := Hook 0]"
    by (simp_all add: others_eq_iff)
  note l = masked_length [OF m] and n = masked_nth [OF m assms(2)]
    and u = masked_update [OF m assms(2)]
  show ?thesis
    unfolding others_eq_iff using e t m l n u
    by (simp add: step_dial_def emit_def split: task.splits relay_pc.splits)
qed

lemma others_copy:
  assumes "others i s = others i s'" and "j \<noteq> i"
  shows "others i (step_copy j d x s) = others i (step_copy j d x s')"
proof -
  from assms have e: "exited s = exited s'" "main s = main s'" "defers s = defers s'"
      "reader s = reader s'"
    and t: "filter (\<lambda>te. fst te \<noteq> T_relay i) (trace s)
        = filter (\<lambda>te. fst te \<noteq> T_relay i) (trace s')"
    and m: "(tasks s)[i := Hook 0] = (tasks s')[i := Hook 0]"
    by (simp_all add: others_eq_iff)
  note l = masked_length [OF m] and n = masked_nth [OF m assms(2)]
    and u = masked_update [OF m assms(2)]
  show ?thesis
    unfolding others_eq_iff using e t m l n u
    by (simp add: step_copy_def split: task.splits relay_pc.splits direction.splits)
qed

lemma others_recv:
  assumes "others i s = others i s'" and "j \<noteq> i"
  shows "others i (step_recv j s) = others i (step_recv j s')"
proof -
  from assms have e: "exited s = exited s'" "main s = main s'" "defers s = defers s'"
      "reader s = reader s'"
    and t: "filter (\<lambda>te. fst te \<noteq> T_relay i) (trace s)
        = filter (\<lambda>te. fst te \<noteq> T_relay i) (trace s')"
    and m: "(tasks s)[i := Hook 0] = (tasks s')[i := Hook 0]"
    by (simp_all add: others_eq_iff)
  note l = masked_length [OF m] and n = masked_nth [OF m assms(2)]
    and u = masked_update [OF m assms(2)]
  show ?thesis
    unfolding others_eq_iff using e t m l n u
    by (simp add: step_recv_def emit_def split: task.splits relay_pc.splits list.splits)
qed

lemma others_step:
  assumes "others i s = others i s'"
  shows "others i (step c a s) = others i (step c a s')"
proof -
  from assms have x: "exited s = exited s'"
    by (simp add: others_eq_iff)
  show ?thesis
  proof (cases "exited s")
    case True
    with x assms show ?thesis by (simp add: step_exited)
  next
    case False
    with x have live: "\<not> exited s" "\<not> exited s'" by simp_all
    show ?thesis
    proof (cases a)
      case (A_listen ok)
      have "others i (step_listen c ok s) = others i (step_listen c ok s')"
        using assms by (rule others_listen)
      with live A_listen show ?thesis by (simp add: step_def)
    next
      case (A_accept r)
      have "others i (step_accept c r s) = others i (step_accept c r s')"
        using assms by (rule others_accept)
      with live A_accept show ?thesis by (simp add: step_def)
    next
      case (A_read r)
      have "others i (step_read c r s) = others i (step_read c r s')"
        using assms by (rule others_read)
      with live A_read show ?thesis by (simp add: step_def)
    next
      case (A_dial j ok)
      have "others i (step_dial c j ok s) = others i (step_dial c j ok s')"
      proof (cases "j = i")
        case True
        with assms show ?thesis by (simp only: others_own_dial)
      next
        case False
        with assms show ?thesis by (rule others_dial)
      qed
      with live A_dial show ?thesis by (simp add: step_def)
    next
      case (A_copy j d e)
      have "others i (step_copy j d e s) = others i (step_copy j d e s')"
      proof (cases "j = i")
        case True
        with assms show ?thesis by (simp only: others_own_copy)
      next
        case False
        with assms show ?thesis by (rule others_copy)
      qed
      with live A_copy show ?thesis by (simp add: step_def)
    next
      case (A_recv j)
      have "others i (step_recv j s) = others i (step_recv j s')"
      proof (cases "j = i")
        case True
        with assms show ?thesis by (simp only: others_own_recv)
      next
        case False
        with assms show ?thesis by (rule others_recv)
      qed
      with live A_recv show ?thesis by (simp add: step_def)
    qed
  qed
qed

lemma others_exec:
  "others i s = others i s' \<Longrightarrow> others i (exec c as s) = others i (exec c as s')"
proof (induction as arbitrary: s s')
  case Nil
  then show ?case by simp
next
  case (Cons a as)
  from Cons.prems have "others i (step c a s) = others i (step c a s')"
    by (rule others_step)
  then have "others i (exec c as (step c a s)) = others i (exec c as (step c a s'))"
    by (rule Cons.IH)
  then show ?case by simp
qed

lemma others_step_dial: "others i (step c (A_dial i ok) s) = others i s"
  by (simp add: step_def others_own_dial)

lemma step_dial_fails:
  "\<not> exited s \<Longrightarrow> i < length (tasks s) \<Longrightarrow> tasks s ! i = Relay inb Dialing \<Longrightarrow>
   step c (A_dial i False) s =
     s\<lparr>trace := trace s @
         [(T_relay i, Ev_dial (HostPort (TargetHost c) (TargetPort c)) False),
          (T_relay i, Ev_log ''failed to connect to target: %v''),
          (T_relay i, Ev_close (Res_in inb))],
       tasks := (tasks s)[i := Relay inb Finished]\<rparr>"
  by (simp add: step_def step_dial_def emit_def)

text \<open>
  C6. When the relay of task \<open>i\<close> fails to dial the target it logs, closes its inbound
  connection and ends: nothing is sent, the process lives, and the main goroutine, the
  reader, the deferred closes and every other task are as before. Whatever is scheduled
  afterwards, all that is not task \<open>i\<close> itself goes on exactly as it does after a dial
  that succeeds.
\<close>

theorem C6_dial_failure_isolated:
  assumes "\<not> exited s" and "i < length (tasks s)" and "tasks s ! i = Relay inb Dialing"
  shows "step c (A_dial i False) s =
           s\<lparr>trace := trace s @
               [(T_relay i, Ev_dial (HostPort (TargetHost c) (TargetPort c)) False),
                (T_relay i, Ev_log ''failed to connect to target: %v''),
                (T_relay i, Ev_close (Res_in inb))],
             tasks := (tasks s)[i := Relay inb Finished]\<rparr>
       \<and> signals (trace (step c (A_dial i False) s)) = signals (trace s)
       \<and> others i (exec c sched (step c (A_dial i False) s))
           = others i (exec c sched (step c (A_dial i True) s))"
proof -
  have a: "step c (A_dial i False) s =
      s\<lparr>trace := trace s @
          [(T_relay i, Ev_dial (HostPort (TargetHost c) (TargetPort c)) False),
           (T_relay i, Ev_log ''failed to connect to target: %v''),
           (T_relay i, Ev_close (Res_in inb))],
        tasks := (tasks s)[i := Relay inb Finished]\<rparr>"
    using assms by (rule step_dial_fails)
  have b: "signals (trace (step c (A_dial i False) s)) = signals (trace s)"
    using assms(1) by (simp add: step_def signals_def sends_step_dial)
  have "others i (step c (A_dial i False) s) = others i (step c (A_dial i True) s)"
    by (simp add: others_step_dial)
  then have d: "others i (exec c sched (step c (A_dial i False) s))
      = others i (exec c sched (step c (A_dial i True) s))"
    by (rule others_exec)
  from a b d show ?thesis by blast
qed

theorem C6_dial_failure_isolated_witness:
  "\<not> exited (Create cfg0 env0 [A_listen True, A_accept (Some 7), A_accept (Some 8)])
   \<and> tasks (Create cfg0 env0 [A_listen True, A_accept (Some 7), A_accept (Some 8)]) ! 0
       = Relay 7 Dialing
   \<and> signals (trace (step cfg0 (A_dial 0 False)
         (Create cfg0 env0 [A_listen True, A_accept (Some 7), A_accept (Some 8)])))
       = signals (trace (Create cfg0 env0 [A_listen True, A_accept (Some 7), A_accept (Some 8)]))
   \<and> others 0 (exec cfg0 [A_dial 1 True, A_accept (Some 9)] (step cfg0 (A_dial 0 False)
         (Create cfg0 env0 [A_listen True, A_accept (Some 7), A_accept (Some 8)])))
       = others 0 (exec cfg0 [A_dial 1 True, A_accept (Some 9)] (step cfg0 (A_dial 0 True)
         (Create cfg0 env0 [A_listen True, A_accept (Some 7), A_accept (Some 8)])))"
proof -
  have s: "Create cfg0 env0 [A_listen True, A_accept (Some 7), A_accept (Some 8)] =
      \<lparr>trace = [(T_main, Ev_dial (Address ''relay.example:22'') True),
         (T_main, Ev_handshake ''relay.example:22''),
         (T_main, Ev_listen (HostPort ''0.0.0.0'' 9000) True),
         (T_main, Ev_go_relay 7), (T_main, Ev_go_relay 8)],
       exited = False, main = M_accept, defers = [Res_listener, Res_session, Res_client],
       reader = R_reading True, tasks = [Relay 7 Dialing, Relay 8 Dialing]\<rparr>"
    by (simp add: Create_def start_def connect_def connect_direct_def ssh_Dial_def
        NewClientConn_def FixedHostKey_def env0_def cfg0_def step_defs)
  have h1: "\<not> exited (Create cfg0 env0 [A_listen True, A_accept (Some 7), A_accept (Some 8)])"
    by (simp add: s)
  have h2: "0 < length (tasks (Create cfg0 env0 [A_listen True, A_accept (Some 7), A_accept (Some 8)]))"
    by (simp add: s)
  have h3: "tasks (Create cfg0 env0 [A_listen True, A_accept (Some 7), A_accept (Some 8)]) ! 0
      = Relay 7 Dialing"
    by (simp add: s)
  from C6_dial_failure_isolated [OF h1 h2 h3, where c=cfg0
      and sched="[A_dial 1 True, A_accept (Some 9)]"] h1 h3
  show ?thesis by blast
qed

subsection \<open>The relay of one connection\<close>

lemma step_dial_succeeds:
  "\<not> exited s \<Longrightarrow> i < length (tasks s) \<Longrightarrow> tasks s ! i = Relay inb Dialing \<Longrightarrow>
   step c (A_dial i True) s =
     s\<lparr>trace := trace s @ [(T_relay i, Ev_dial (HostPort (TargetHost c) (TargetPort c)) True)],
       tasks := (tasks s)[i := Relay inb (Copying [] True True)]\<rparr>"
  by (simp add: step_def step_dial_def emit_def)

lemma step_recv_waits:
  "i < length (tasks s) \<Longrightarrow> tasks s ! i = Relay inb (Copying [] ti tt) \<Longrightarrow>
   step c (A_recv i) s = s"
  by (simp add: step_def step_recv_def)

lemma step_copy_first:
  "\<not> exited s \<Longrightarrow> i < length (tasks s) \<Longrightarrow> tasks s ! i = Relay inb (Copying [] True True) \<Longrightarrow>
   step c (A_copy i d e) s =
     s\<lparr>tasks := (tasks s)[i := Relay inb (Copying [e] (d \<noteq> To_inbound) (d \<noteq> To_target))]\<rparr>"
  by (cases d) (simp_all add: step_def step_copy_def)

lemma step_copy_second:
  "\<not> exited s \<Longrightarrow> i < length (tasks s) \<Longrightarrow>
   tasks s ! i = Relay inb (Copying [e] (d \<noteq> To_inbound) (d \<noteq> To_target)) \<Longrightarrow> d' \<noteq> d \<Longrightarrow>
   step c (A_copy i d' e') s =
     s\<lparr>tasks := (tasks s)[i := Relay inb (Copying [e, e'] False False)]\<rparr>"
  by (cases d; cases d') (simp_all add: step_def step_copy_def)

lemma step_recv_takes:
  "\<not> exited s \<Longrightarrow> i < length (tasks s) \<Longrightarrow> tasks s ! i = Relay inb (Copying (e # ch) ti tt) \<Longrightarrow>
   step c (A_recv i) s =
     s\<lparr>trace := trace s
         @ (if e \<noteq> None \<and> e \<noteq> Some EOF then [(T_relay i, Ev_log ''failed to copy: %v'')] else [])
         @ [(T_relay i, Ev_close (Res_out inb)), (T_relay i, Ev_close (Res_in inb))],
       tasks := (tasks s)[i := Relay inb Finished]\<rparr>"
  by (simp add: step_def step_recv_def emit_def)

text \<open>
  C7. After a dial that succeeds both copiers run. The relay waits as long as neither
  has ended. When one has ended, in either direction and with whatever result, and
  whether or not the other has ended too, the relay takes the first result, logs it
  unless it is nil or \<^verbatim>\<open>io.EOF\<close>, closes the target connection and the inbound
  connection, and ends.
\<close>

theorem C7_relay_copies_then_closes:
  assumes "\<not> exited s" and "i < length (tasks s)" and "tasks s ! i = Relay inb Dialing"
  shows "step c (A_dial i True) s =
           s\<lparr>trace := trace s
               @ [(T_relay i, Ev_dial (HostPort (TargetHost c) (TargetPort c)) True)],
             tasks := (tasks s)[i := Relay inb (Copying [] True True)]\<rparr>
       \<and> exec c [A_dial i True, A_recv i] s = step c (A_dial i True) s
       \<and> exec c [A_dial i True, A_copy i d e, A_recv i] s =
           s\<lparr>trace := trace s
               @ [(T_relay i, Ev_dial (HostPort (TargetHost c) (TargetPort c)) True)]
               @ (if e \<noteq> None \<and> e \<noteq> Some EOF
                  then [(T_relay i, Ev_log ''failed to copy: %v'')] else [])
               @ [(T_relay i, Ev_close (Res_out inb)), (T_relay i, Ev_close (Res_in inb))],
             tasks := (tasks s)[i := Relay inb Finished]\<rparr>
       \<and> (d' \<noteq> d \<longrightarrow>
            exec c [A_dial i True, A_copy i d e, A_copy i d' e', A_recv i] s
              = exec c [A_dial i True, A_copy i d e, A_recv i] s)"
proof -
  let ?d = "(T_relay i, Ev_dial (HostPort (TargetHost c) (TargetPort c)) True)"
  let ?out = "(if e \<noteq> None \<and> e \<noteq> Some EOF
      then [(T_relay i, Ev_log ''failed to copy: %v'')] else [])
    @ [(T_relay i, Ev_close (Res_out inb)), (T_relay i, Ev_close (Res_in inb))]"
  let ?s1 = "s\<lparr>trace := trace s @ [?d],
    tasks := (tasks s)[i := Relay inb (Copying [] True True)]\<rparr>"
  let ?s2 = "s\<lparr>trace := trace s @ [?d],
    tasks := (tasks s)[i := Relay inb (Copying [e] (d \<noteq> To_inbound) (d \<noteq> To_target))]\<rparr>"
  let ?s3 = "s\<lparr>trace := trace s @ [?d],
    tasks := (tasks s)[i := Relay inb (Copying [e, e'] False False)]\<rparr>"
  let ?s4 = "s\<lparr>trace := trace s @ [?d] @ ?out, tasks := (tasks s)[i := Relay inb Finished]\<rparr>"
  have a: "step c (A_dial i True) s = ?s1"
    using assms by (rule step_dial_succeeds)
  have w: "step c (A_recv i) ?s1 = ?s1"
    using assms step_recv_waits [of i ?s1 inb True True c] by simp
  have c1: "step c (A_copy i d e) ?s1 = ?s2"
    using assms step_copy_first [of ?s1 i inb c d e] by simp
  have r2: "step c (A_recv i) ?s2 = ?s4"
    using assms step_recv_takes [of ?s2 i inb e "[]" "d \<noteq> To_inbound" "d \<noteq> To_target" c]
    by simp
  have c2: "step c (A_copy i d' e') ?s2 = ?s3" if "d' \<noteq> d"
    using assms that step_copy_second [of ?s2 i inb e d d' c e'] by simp
  have r3: "step c (A_recv i) ?s3 = ?s4"
    using assms step_recv_takes [of ?s3 i inb e "[e']" False False c] by simp
  have b: "exec c [A_dial i True, A_recv i] s = step c (A_dial i True) s"
    by (simp only: exec.simps a w)
  have t: "exec c [A_dial i True, A_copy i d e, A_recv i] s = ?s4"
    by (simp only: exec.simps a c1 r2)
  have u: "exec c [A_dial i True, A_copy i d e, A_copy i d' e', A_recv i] s
      = exec c [A_dial i True, A_copy i d e, A_recv i] s" if "d' \<noteq> d"
    by (simp only: exec.simps a c1 c2 [OF that] r2 r3)
  from a b t u show ?thesis by simp
qed

theorem C7_relay_copies_then_closes_witness:
  "\<not> exited (Create cfg0 env0 [A_listen True, A_accept (Some 7)])
   \<and> tasks (Create cfg0 env0 [A_listen True, A_accept (Some 7)]) ! 0 = Relay 7 Dialing
   \<and> exec cfg0 [A_dial 0 True, A_copy 0 To_target (Some (Err ''reset'')), A_recv 0]
       (Create cfg0 env0 [A_listen True, A_accept (Some 7)]) =
     \<lparr>trace = [(T_main, Ev_dial (Address ''relay.example:22'') True),
         (T_main, Ev_handshake ''relay.example:22''),
         (T_main, Ev_listen (HostPort ''0.0.0.0'' 9000) True),
         (T_main, Ev_go_relay 7),
         (T_relay 0, Ev_dial (HostPort ''127.0.0.1'' 8080) True),
         (T_relay 0, Ev_log ''failed to copy: %v''),
         (T_relay 0, Ev_close (Res_out 7)),
         (T_relay 0, Ev_close (Res_in 7))],
       exited = False, main = M_accept, defers = [Res_listener, Res_session, Res_client],
       reader = R_reading True, tasks = [Relay 7 Finished]\<rparr>"
proof -
  have s: "Create cfg0 env0 [A_listen True, A_accept (Some 7)] =
      \<lparr>trace = [(T_main, Ev_dial (Address ''relay.example:22'') True),
         (T_main, Ev_handshake ''relay.example:22''),
         (T_main, Ev_listen (HostPort ''0.0.0.0'' 9000) True),
         (T_main, Ev_go_relay 7)],
       exited = False, main = M_accept, defers = [Res_listener, Res_session, Res_client],
       reader = R_reading True, tasks = [Relay 7 Dialing]\<rparr>"
    by (simp add: Create_def start_def connect_def connect_direct_def ssh_Dial_def
        NewClientConn_def FixedHostKey_def env0_def cfg0_def step_defs)
  have h1: "\<not> exited (Create cfg0 env0 [A_listen True, A_accept (Some 7)])"
    by (simp add: s)
  have h2: "0 < length (tasks (Create cfg0 env0 [A_listen True, A_accept (Some 7)]))"
    by (simp add: s)
  have h3: "tasks (Create cfg0 env0 [A_listen True, A_accept (Some 7)]) ! 0 = Relay 7 Dialing"
    by (simp add: s)
  from C7_relay_copies_then_closes [OF h1 h2 h3, where c=cfg0 and d=To_target
      and e="Some (Err ''reset'')"]
  have "exec cfg0 [A_dial 0 True, A_copy 0 To_target (Some (Err ''reset'')), A_recv 0]
       (Create cfg0 env0 [A_listen True, A_accept (Some 7)]) =
      (Create cfg0 env0 [A_listen True, A_accept (Some 7)])
        \<lparr>trace := trace (Create cfg0 env0 [A_listen True, A_accept (Some 7)])
          @ [(T_relay 0, Ev_dial (HostPort (TargetHost cfg0) (TargetPort cfg0)) True)]
          @ (if Some (Err ''reset'') \<noteq> None \<and> Some (Err ''reset'') \<noteq> Some EOF
             then [(T_relay 0, Ev_log ''failed to copy: %v'')] else [])
          @ [(T_relay 0, Ev_close (Res_out 7)), (T_relay 0, Ev_close (Res_in 7))],
         tasks := (tasks (Create cfg0 env0 [A_listen True, A_accept (Some 7)]))
           [0 := Relay 7 Finished]\<rparr>"
    by blast
  note e = this [unfolded s]
  show ?thesis
    unfolding s using e by (simp add: cfg0_def)
qed

subsection \<open>The inbound connection hook\<close>

lemma step_accept_hook:
  "\<not> exited s \<Longrightarrow> main s = M_accept \<Longrightarrow> InBoundConnectionHook c = Some h \<Longrightarrow>
   step c (A_accept (Some inb)) s =
     s\<lparr>trace := trace s @ [(T_main, Ev_go_hook h inb)], tasks := tasks s @ [Hook inb]\<rparr>"
  by (simp add: step_def step_accept_def emit_def)

lemma no_relay_work_NewClientConn:
  "filter (\<lambda>e. relay_work (T_main, e)) (fst (NewClientConn c k hs)) = []"
  by (simp add: NewClientConn_def BannerCallback_def split: option.splits)

lemma no_relay_work_connect_proxy:
  "filter (\<lambda>e. relay_work (T_main, e)) (fst (connect_proxy c k env)) = []"
proof (cases "NewClientConn c k (env_handshake env)")
  case (Pair evs ok)
  with no_relay_work_NewClientConn [of c k "env_handshake env"] show ?thesis
    by (simp add: connect_proxy_def split: option.splits)
qed

lemma no_relay_work_connect_direct:
  "filter (\<lambda>e. relay_work (T_main, e)) (fst (connect_direct c k env)) = []"
proof (cases "NewClientConn c k (env_handshake env)")
  case (Pair evs ok)
  with no_relay_work_NewClientConn [of c k "env_handshake env"] show ?thesis
    by (simp add: connect_direct_def ssh_Dial_def)
qed

lemma no_relay_work_connect:
  "filter (\<lambda>e. relay_work (T_main, e)) (fst (connect c env)) = []"
  by (cases "env_parse_key env hostBytes")
    (simp_all add: connect_def no_relay_work_connect_proxy no_relay_work_connect_direct)

lemma hook_inv_start: "hook_inv (start c env)"
proof (cases "connect c env")
  case (Pair evs out)
  with no_relay_work_connect [of c env] show ?thesis
    by (cases out) (simp_all add: start_def hook_inv_def filter_map o_def)
qed

lemma hook_task:
  "list_all is_hook ts \<Longrightarrow> i < length ts \<Longrightarrow> \<exists>x. ts ! i = Hook x"
  by (cases "ts ! i") (auto simp: list_all_length)

lemma hook_step_dial: "list_all is_hook (tasks s) \<Longrightarrow> step_dial c i ok s = s"
  using hook_task [of "tasks s" i] by (auto simp: step_dial_def)

lemma hook_step_copy: "list_all is_hook (tasks s) \<Longrightarrow> step_copy i d e s = s"
  using hook_task [of "tasks s" i] by (auto simp: step_copy_def)

lemma hook_step_recv: "list_all is_hook (tasks s) \<Longrightarrow> step_recv i s = s"
  using hook_task [of "tasks s" i] by (auto simp: step_recv_def)

lemma closes_no_relay_work:
  "filter is_conn ds = [] \<Longrightarrow> filter relay_work (map (\<lambda>r. (T_main, Ev_close r)) ds) = []"
proof (induction ds)
  case Nil
  then show ?case by simp
next
  case (Cons r ds)
  then show ?case by (cases r) (simp_all split: if_splits)
qed

lemma hook_inv_step_accept:
  "InBoundConnectionHook c = Some h \<Longrightarrow> hook_inv s \<Longrightarrow> hook_inv (step_accept c r s)"
  using closes_no_relay_work [of "defers s"]
  by (cases r) (simp_all add: hook_inv_def step_accept_def emit_def o_def)

lemma hook_inv_step_listen: "hook_inv s \<Longrightarrow> hook_inv (step_listen c ok s)"
  by (simp add: hook_inv_def step_listen_def emit_def fatal_def)

lemma hook_inv_step_read: "hook_inv s \<Longrightarrow> hook_inv (step_read c r s)"
  by (simp add: hook_inv_def step_read_def emit_def fatal_def split: reader_pc.splits sum.splits)

lemma hook_inv_step:
  "InBoundConnectionHook c = Some h \<Longrightarrow> hook_inv s \<Longrightarrow> hook_inv (step c a s)"
proof (cases a)
  case (A_accept r)
  then show "InBoundConnectionHook c = Some h \<Longrightarrow> hook_inv s \<Longrightarrow> hook_inv (step c a s)"
    by (simp add: step_def hook_inv_step_accept)
next
  case (A_dial i ok)
  then show "hook_inv s \<Longrightarrow> hook_inv (step c a s)"
    by (simp add: step_def hook_inv_def hook_step_dial)
next
  case (A_copy i d e)
  then show "hook_inv s \<Longrightarrow> hook_inv (step c a s)"
    by (simp add: step_def hook_inv_def hook_step_copy)
next
  case (A_recv i)
  then show "hook_inv s \<Longrightarrow> hook_inv (step c a s)"
    by (simp add: step_def hook_inv_def hook_step_recv)
qed (simp_all add: step_def hook_inv_step_listen hook_inv_step_read)

lemma hook_inv_exec:
  "InBoundConnectionHook c = Some h \<Longrightarrow> hook_inv s \<Longrightarrow> hook_inv (exec c as s)"
  by (induction as arbitrary: s) (simp_all add: hook_inv_step)

text \<open>
  C8. With a hook configured, an accepted connection is handed to the hook in a
  goroutine of its own and the main goroutine is back in the accept loop at once: it
  closes nothing and starts no relay. In the whole run every task is a hook, and the
  trace holds no event of a relay goroutine, no start of one and no closing of an
  inbound or target connection.
\<close>

theorem C8_hook_takes_connection:
  assumes "InBoundConnectionHook c = Some h"
  shows "(\<not> exited s \<and> main s = M_accept \<longrightarrow>
            step c (A_accept (Some inb)) s =
              s\<lparr>trace := trace s @ [(T_main, Ev_go_hook h inb)], tasks := tasks s @ [Hook inb]\<rparr>
            \<and> main (step c (A_accept (Some inb)) s) = M_accept)
       \<and> list_all is_hook (tasks (Create c env sched))
       \<and> filter relay_work (trace (Create c env sched)) = []"
proof -
  have a: "step c (A_accept (Some inb)) s =
      s\<lparr>trace := trace s @ [(T_main, Ev_go_hook h inb)], tasks := tasks s @ [Hook inb]\<rparr>"
    if "\<not> exited s \<and> main s = M_accept"
    using that assms by (simp add: step_accept_hook)
  have b: "main (step c (A_accept (Some inb)) s) = M_accept"
    if "\<not> exited s \<and> main s = M_accept"
    using that a [OF that] by simp
  have "hook_inv (Create c env sched)"
    unfolding Create_def using assms hook_inv_start by (rule hook_inv_exec)
  then have d: "list_all is_hook (tasks (Create c env sched))"
    and e: "filter relay_work (trace (Create c env sched)) = []"
    by (simp_all add: hook_inv_def)
  from a b d e show ?thesis by blast
qed

theorem C8_hook_takes_connection_witness:
  "InBoundConnectionHook cfg_hook = Some ''hook''
   \<and> Create cfg_hook env0 [A_listen True, A_accept (Some 7), A_dial 0 True, A_accept (Some 8)] =
       \<lparr>trace = [(T_main, Ev_dial (Address ''relay.example:22'') True),
          (T_main, Ev_handshake ''relay.example:22''),
          (T_main, Ev_listen (HostPort ''0.0.0.0'' 9000) True),
          (T_main, Ev_go_hook ''hook'' 7), (T_main, Ev_go_hook ''hook'' 8)],
        exited = False, main = M_accept, defers = [Res_listener, Res_session, Res_client],
        reader = R_reading True, tasks = [Hook 7, Hook 8]\<rparr>
   \<and> list_all is_hook (tasks (Create cfg_hook env0
         [A_listen True, A_accept (Some 7), A_dial 0 True, A_accept (Some 8)]))
   \<and> filter relay_work (trace (Create cfg_hook env0
         [A_listen True, A_accept (Some 7), A_dial 0 True, A_accept (Some 8)])) = []"
proof -
  have h: "InBoundConnectionHook cfg_hook = Some ''hook''"
    by (simp add: cfg_hook_def)
  have s: "Create cfg_hook env0 [A_listen True, A_accept (Some 7), A_dial 0 True, A_accept (Some 8)] =
       \<lparr>trace = [(T_main, Ev_dial (Address ''relay.example:22'') True),
          (T_main, Ev_handshake ''relay.example:22''),
          (T_main, Ev_listen (HostPort ''0.0.0.0'' 9000) True),
          (T_main, Ev_go_hook ''hook'' 7), (T_main, Ev_go_hook ''hook'' 8)],
        exited = False, main = M_accept, defers = [Res_listener, Res_session, Res_client],
        reader = R_reading True, tasks = [Hook 7, Hook 8]\<rparr>"
    by (simp add: Create_def start_def connect_def connect_direct_def ssh_Dial_def
        NewClientConn_def FixedHostKey_def env0_def cfg_hook_def cfg0_def step_defs)
  from C8_hook_takes_connection [OF h, where env=env0
      and sched="[A_listen True, A_accept (Some 7), A_dial 0 True, A_accept (Some 8)]"] h s
  show ?thesis by blast
qed

end
